theory Spec2Isabelle
  imports Complex_Main "HOL-Library.While_Combinator" "HOL-Library.Log_Nat"
begin

section \<open>The fixed-step integrator of NumericalIntegration.h\<close>

text \<open>
  The class template \<^verbatim>\<open>NumericalIntegration<Functor, ValueType, Scalar, mode>\<close> is
  embedded as follows.

  \<^item> \<^verbatim>\<open>Scalar\<close> and \<^verbatim>\<open>ValueType\<close> are template parameters. The integrator uses six of
    their operations, and the model takes them as a parameter \<open>A\<close>, a record of type
    \<open>('s, 'v) arith\<close>. Two arithmetics are defined below: \<open>exact_arith\<close> (real scalars,
    states of a real vector space, no rounding) and \<open>binary64\<close> (\<^verbatim>\<open>Scalar\<close> and
    \<^verbatim>\<open>ValueType\<close> both \<^verbatim>\<open>double\<close>, every operation rounded by itself to nearest, ties to
    even). \<^verbatim>\<open>float\<close> is not modelled.
  \<^item> \<^verbatim>\<open>IntegrationMode\<close> is an unscoped C++ enumeration; a value of it is modelled by
    its underlying integer, so that the \<^verbatim>\<open>default:\<close> branch of \<^verbatim>\<open>integrate\<close> is a
    branch of the model as well.
  \<^item> A member function that may loop forever returns an \<open>option\<close>: \<open>None\<close> means that the
    call does not return.
\<close>

record ('s, 'v) arith =
  s_of_int :: "int \<Rightarrow> 's"  \<comment> \<open>conversion of an \<^verbatim>\<open>int\<close> literal to \<^verbatim>\<open>Scalar\<close>\<close>
  s_less :: "'s \<Rightarrow> 's \<Rightarrow> bool"  \<comment> \<open>\<^verbatim>\<open>a < b\<close> on \<^verbatim>\<open>Scalar\<close>\<close>
  s_sub :: "'s \<Rightarrow> 's \<Rightarrow> 's"  \<comment> \<open>\<^verbatim>\<open>a - b\<close> on \<^verbatim>\<open>Scalar\<close>\<close>
  s_div :: "'s \<Rightarrow> 's \<Rightarrow> 's"  \<comment> \<open>\<^verbatim>\<open>a / b\<close> on \<^verbatim>\<open>Scalar\<close>\<close>
  v_add :: "'v \<Rightarrow> 'v \<Rightarrow> 'v"  \<comment> \<open>\<^verbatim>\<open>x + y\<close> on \<^verbatim>\<open>ValueType\<close>\<close>
  v_scale :: "'s \<Rightarrow> 'v \<Rightarrow> 'v"  \<comment> \<open>\<^verbatim>\<open>a * x\<close>, \<^verbatim>\<open>Scalar\<close> times \<^verbatim>\<open>ValueType\<close>\<close>

type_synonym IntegrationMode = int

definition Euler :: IntegrationMode where
  "Euler = 0"

definition RungeKutta :: IntegrationMode where
  "RungeKutta = 1"

subsection \<open>The \<^verbatim>\<open>for\<close> statement\<close>

text \<open>
  \<^verbatim>\<open>for (init; cond; incr) stmt\<close> after \<^verbatim>\<open>init\<close>: as long as \<open>cond\<close> holds of the loop
  variables \<open>s\<close>, one pass \<open>body\<close> (\<^verbatim>\<open>stmt\<close> followed by \<^verbatim>\<open>incr\<close>) is executed. The result
  is the value of the loop variables at exit.
\<close>

partial_function (option) for_loop :: "('s \<Rightarrow> bool) \<Rightarrow> ('s \<Rightarrow> 's) \<Rightarrow> 's \<Rightarrow> 's option" where
  "for_loop cond body s = (if cond s then for_loop cond body (body s) else Some s)"

subsection \<open>Functor as a function of its argument\<close>

text \<open>
  Here the call \<^verbatim>\<open>f(x, dx)\<close> writes \<open>f x\<close> into \<^verbatim>\<open>dx\<close> and does nothing else. The loop
  variables of both private member functions are \<^verbatim>\<open>time_span\<close> and \<^verbatim>\<open>x\<close> (a reference
  to \<^verbatim>\<open>xout\<close>). The literals \<^verbatim>\<open>0\<close>, \<^verbatim>\<open>2\<close> and \<^verbatim>\<open>6\<close> are converted to \<^verbatim>\<open>Scalar\<close>.
\<close>

definition time_left :: "('s, 'v) arith \<Rightarrow> 's \<times> 'v \<Rightarrow> bool" where
  \<comment> \<open>the loop condition \<^verbatim>\<open>time_span > 0\<close>\<close>
  "time_left A = (\<lambda>(time_span, x). s_less A (s_of_int A 0) time_span)"

definition ForwardEuler_body ::
  "('s, 'v) arith \<Rightarrow> 's \<Rightarrow> ('v \<Rightarrow> 'v) \<Rightarrow> 's \<times> 'v \<Rightarrow> 's \<times> 'v" where
  "ForwardEuler_body A h f = (\<lambda>(time_span, x).
     let dx = f x;
         x = v_add A x (v_scale A h dx)
     in (s_sub A time_span h, x))"

definition ForwardEuler ::
  "('s, 'v) arith \<Rightarrow> 's \<Rightarrow> ('v \<Rightarrow> 'v) \<Rightarrow> 's \<Rightarrow> 'v \<Rightarrow> 'v \<Rightarrow> 'v option" where
  "ForwardEuler A h f time_span x0 xout =
     map_option snd (for_loop (time_left A) (ForwardEuler_body A h f) (time_span, x0))"

definition RK4_body ::
  "('s, 'v) arith \<Rightarrow> 's \<Rightarrow> ('v \<Rightarrow> 'v) \<Rightarrow> 's \<times> 'v \<Rightarrow> 's \<times> 'v" where
  "RK4_body A h f = (\<lambda>(time_span, x).
     let k1 = f x;
         k2 = f (v_add A x (v_scale A (s_div A h (s_of_int A 2)) k1));
         k3 = f (v_add A x (v_scale A (s_div A h (s_of_int A 2)) k2));
         k4 = f (v_add A x (v_scale A h k3));
         x = v_add A x (v_scale A (s_div A h (s_of_int A 6))
               (v_add A (v_add A (v_add A k1 (v_scale A (s_of_int A 2) k2))
                                 (v_scale A (s_of_int A 2) k3)) k4))
     in (s_sub A time_span h, x))"

definition RK4 ::
  "('s, 'v) arith \<Rightarrow> 's \<Rightarrow> ('v \<Rightarrow> 'v) \<Rightarrow> 's \<Rightarrow> 'v \<Rightarrow> 'v \<Rightarrow> 'v option" where
  "RK4 A h f time_span x0 xout =
     map_option snd (for_loop (time_left A) (RK4_body A h f) (time_span, x0))"

text \<open>
  \<^verbatim>\<open>integrate\<close> returns the value of \<^verbatim>\<open>xout\<close> after the call; its last argument is the
  value of \<^verbatim>\<open>xout\<close> before the call.
\<close>

definition integrate ::
  "('s, 'v) arith \<Rightarrow> IntegrationMode \<Rightarrow> 's \<Rightarrow> ('v \<Rightarrow> 'v) \<Rightarrow> 's \<Rightarrow> 'v \<Rightarrow> 'v \<Rightarrow> 'v option" where
  "integrate A mode h f time_span x0 xout =
     (if mode = Euler then ForwardEuler A h f time_span x0 xout
      else if mode = RungeKutta then RK4 A h f time_span x0 xout
      else Some xout)"

text \<open>
  The value of \<^verbatim>\<open>time_span\<close> after \<open>m\<close> executions of \<^verbatim>\<open>time_span -= h\<close>.
\<close>

definition countdown :: "('s, 'v) arith \<Rightarrow> 's \<Rightarrow> 's \<Rightarrow> nat \<Rightarrow> 's" where
  "countdown A h time_span m = ((\<lambda>t. s_sub A t h) ^^ m) time_span"

subsection \<open>Functor with a state of its own\<close>

text \<open>
  The member \<^verbatim>\<open>Functor f\<close> is an object, and \<^verbatim>\<open>f(x, dx)\<close> may update it. In this
  second model \<open>call fs x\<close> is the derivative written into \<^verbatim>\<open>dx\<close> together with the
  functor object after the call, and the integrator object is a record of its two members.
\<close>

record ('s, 'fs) NumericalIntegration =
  member_h :: 's
  member_f :: 'fs

definition time_left_st :: "('s, 'v) arith \<Rightarrow> 's \<times> 'v \<times> 'fs \<Rightarrow> bool" where
  "time_left_st A = (\<lambda>(time_span, x, fs). s_less A (s_of_int A 0) time_span)"

definition ForwardEuler_body_st ::
  "('s, 'v) arith \<Rightarrow> ('fs \<Rightarrow> 'v \<Rightarrow> 'v \<times> 'fs) \<Rightarrow> 's \<Rightarrow> 's \<times> 'v \<times> 'fs \<Rightarrow> 's \<times> 'v \<times> 'fs" where
  "ForwardEuler_body_st A call h = (\<lambda>(time_span, x, fs).
     let (dx, fs) = call fs x;
         x = v_add A x (v_scale A h dx)
     in (s_sub A time_span h, x, fs))"

definition RK4_body_st ::
  "('s, 'v) arith \<Rightarrow> ('fs \<Rightarrow> 'v \<Rightarrow> 'v \<times> 'fs) \<Rightarrow> 's \<Rightarrow> 's \<times> 'v \<times> 'fs \<Rightarrow> 's \<times> 'v \<times> 'fs" where
  "RK4_body_st A call h = (\<lambda>(time_span, x, fs).
     let (k1, fs) = call fs x;
         (k2, fs) = call fs (v_add A x (v_scale A (s_div A h (s_of_int A 2)) k1));
         (k3, fs) = call fs (v_add A x (v_scale A (s_div A h (s_of_int A 2)) k2));
         (k4, fs) = call fs (v_add A x (v_scale A h k3));
         x = v_add A x (v_scale A (s_div A h (s_of_int A 6))
               (v_add A (v_add A (v_add A k1 (v_scale A (s_of_int A 2) k2))
                                 (v_scale A (s_of_int A 2) k3)) k4))
     in (s_sub A time_span h, x, fs))"

definition write_back ::
  "('s, 'fs) NumericalIntegration \<Rightarrow> 's \<times> 'v \<times> 'fs \<Rightarrow> ('s, 'fs) NumericalIntegration \<times> 'v" where
  \<comment> \<open>the integrator object and \<^verbatim>\<open>xout\<close> when the loop has ended\<close>
  "write_back this = (\<lambda>(time_span, x, fs). (this\<lparr>member_f := fs\<rparr>, x))"

definition integrate_st ::
  "('s, 'v) arith \<Rightarrow> IntegrationMode \<Rightarrow> ('fs \<Rightarrow> 'v \<Rightarrow> 'v \<times> 'fs) \<Rightarrow> ('s, 'fs) NumericalIntegration \<Rightarrow>
     's \<Rightarrow> 'v \<Rightarrow> 'v \<Rightarrow> (('s, 'fs) NumericalIntegration \<times> 'v) option" where
  "integrate_st A mode call this time_span x0 xout =
     (if mode = Euler then
        map_option (write_back this)
          (for_loop (time_left_st A) (ForwardEuler_body_st A call (member_h this))
             (time_span, x0, member_f this))
      else if mode = RungeKutta then
        map_option (write_back this)
          (for_loop (time_left_st A) (RK4_body_st A call (member_h this))
             (time_span, x0, member_f this))
      else Some (this, xout))"

subsection \<open>The recurrences as the specification words them\<close>

text \<open>
  Forward Euler: initialise the working state \<open>x\<close> with the initial state and the remaining
  span \<open>t\<close> with the time span; while \<open>t > 0\<close>, evaluate \<open>dx = f(x)\<close>, update
  \<open>x = x + h * dx\<close>, decrement \<open>t\<close> by \<open>h\<close>; return \<open>x\<close>. The operations are those of
  the arithmetic \<open>A\<close>.
\<close>

definition spec_Euler :: "('s, 'v) arith \<Rightarrow> 's \<Rightarrow> ('v \<Rightarrow> 'v) \<Rightarrow> 's \<Rightarrow> 'v \<Rightarrow> 'v option" where
  "spec_Euler A h f timeSpan initialState =
     map_option fst
       (while_option (\<lambda>(x, t). s_less A (s_of_int A 0) t)
          (\<lambda>(x, t). let dx = f x in (v_add A x (v_scale A h dx), s_sub A t h))
          (initialState, timeSpan))"

text \<open>
  RK4: the same loop, with the four stages \<open>k1 = f(x)\<close>, \<open>k2 = f(x + (h/2) * k1)\<close>,
  \<open>k3 = f(x + (h/2) * k2)\<close>, \<open>k4 = f(x + h * k3)\<close> and the update
  \<open>x = x + (h/6) * (k1 + 2*k2 + 2*k3 + k4)\<close>.
\<close>

definition spec_RK4 :: "('s, 'v) arith \<Rightarrow> 's \<Rightarrow> ('v \<Rightarrow> 'v) \<Rightarrow> 's \<Rightarrow> 'v \<Rightarrow> 'v option" where
  "spec_RK4 A h f timeSpan initialState =
     map_option fst
       (while_option (\<lambda>(x, t). s_less A (s_of_int A 0) t)
          (\<lambda>(x, t).
             let k1 = f x;
                 k2 = f (v_add A x (v_scale A (s_div A h (s_of_int A 2)) k1));
                 k3 = f (v_add A x (v_scale A (s_div A h (s_of_int A 2)) k2));
                 k4 = f (v_add A x (v_scale A h k3))
             in (v_add A x (v_scale A (s_div A h (s_of_int A 6))
                   (v_add A (v_add A (v_add A k1 (v_scale A (s_of_int A 2) k2))
                                     (v_scale A (s_of_int A 2) k3)) k4)),
                 s_sub A t h))
          (initialState, timeSpan))"

subsection \<open>Exact arithmetic\<close>

text \<open>
  Scalars are real numbers and states are elements of a real vector space; no operation
  rounds.
\<close>

definition exact_arith :: "(real, 'v::real_vector) arith" where
  "exact_arith =
     \<lparr>s_of_int = of_int, s_less = (<), s_sub = (-), s_div = (/), v_add = (+), v_scale = scaleR\<rparr>"

subsection \<open>IEEE 754 binary64 arithmetic\<close>

text \<open>
  \<^verbatim>\<open>Scalar = ValueType = double\<close>. A \<open>double\<close> is a finite number, an infinity or a
  NaN. A finite result is the exact result rounded to the nearest number
  \<open>m * 2\<^sup>e\<^sup>-\<^sup>5\<^sup>2\<close> with \<open>m < 2\<^sup>5\<^sup>3\<close> and \<open>e \<ge> -1022\<close>, ties going to the even \<open>m\<close>;
  a rounded magnitude of \<open>2\<^sup>1\<^sup>0\<^sup>2\<^sup>4\<close> or more is an infinity. The two zeros are not
  told apart: they compare equal, and the integrator divides by \<open>2\<close> and \<open>6\<close> only.
\<close>

datatype double = Finite real | PInf | NInf | NaN

definition pow2 :: "int \<Rightarrow> real" where
  "pow2 e = (if 0 \<le> e then 2 ^ nat e else 1 / 2 ^ nat (- e))"

definition ilog2 :: "real \<Rightarrow> int" where
  \<comment> \<open>for \<open>a > 0\<close>, the exponent \<open>e\<close> with \<open>2\<^sup>e \<le> a < 2\<^sup>e\<^sup>+\<^sup>1\<close>\<close>
  "ilog2 a = (if 1 \<le> a then bitlen \<lfloor>a\<rfloor> - 1 else - bitlen (\<lceil>1 / a\<rceil> - 1))"

definition ulp64 :: "real \<Rightarrow> real" where
  \<comment> \<open>the spacing of binary64 numbers at magnitude \<open>a > 0\<close>\<close>
  "ulp64 a = pow2 (max (ilog2 a) (- 1022) - 52)"

definition nearest_even :: "real \<Rightarrow> int" where
  "nearest_even q =
     (if q - of_int \<lfloor>q\<rfloor> < 1 / 2 then \<lfloor>q\<rfloor>
      else if 1 / 2 < q - of_int \<lfloor>q\<rfloor> then \<lfloor>q\<rfloor> + 1
      else if even \<lfloor>q\<rfloor> then \<lfloor>q\<rfloor> else \<lfloor>q\<rfloor> + 1)"

definition pack64 :: "bool \<Rightarrow> real \<Rightarrow> double" where
  "pack64 negative m =
     (if pow2 1024 \<le> m then (if negative then NInf else PInf)
      else Finite (if negative then - m else m))"

definition round64 :: "real \<Rightarrow> double" where
  "round64 r =
     (if r = 0 then Finite 0
      else pack64 (r < 0) (of_int (nearest_even (\<bar>r\<bar> / ulp64 \<bar>r\<bar>)) * ulp64 \<bar>r\<bar>))"

fun d_sign :: "double \<Rightarrow> int" where
  "d_sign (Finite a) = (if a < 0 then - 1 else if a = 0 then 0 else 1)"
| "d_sign PInf = 1"
| "d_sign NInf = - 1"
| "d_sign NaN = 0"

fun d_neg :: "double \<Rightarrow> double" where
  "d_neg (Finite a) = Finite (- a)"
| "d_neg PInf = NInf"
| "d_neg NInf = PInf"
| "d_neg NaN = NaN"

fun d_add :: "double \<Rightarrow> double \<Rightarrow> double" where
  "d_add (Finite a) (Finite b) = round64 (a + b)"
| "d_add NaN y = NaN"
| "d_add x NaN = NaN"
| "d_add PInf NInf = NaN"
| "d_add NInf PInf = NaN"
| "d_add PInf y = PInf"
| "d_add NInf y = NInf"
| "d_add x PInf = PInf"
| "d_add x NInf = NInf"

definition d_sub :: "double \<Rightarrow> double \<Rightarrow> double" where
  "d_sub x y = d_add x (d_neg y)"

fun d_mul :: "double \<Rightarrow> double \<Rightarrow> double" where
  "d_mul (Finite a) (Finite b) = round64 (a * b)"
| "d_mul NaN y = NaN"
| "d_mul x NaN = NaN"
| "d_mul x y =
     (if d_sign x * d_sign y = 0 then NaN else if 0 < d_sign x * d_sign y then PInf else NInf)"

fun d_div :: "double \<Rightarrow> double \<Rightarrow> double" where
  "d_div (Finite a) (Finite b) =
     (if b = 0 then (if a = 0 then NaN else if 0 < a then PInf else NInf)
      else round64 (a / b))"
| "d_div NaN y = NaN"
| "d_div x NaN = NaN"
| "d_div (Finite a) y = Finite 0"
| "d_div x (Finite b) = (if 0 < d_sign x * (if b < 0 then - 1 else 1) then PInf else NInf)"
| "d_div x y = NaN"

fun d_less :: "double \<Rightarrow> double \<Rightarrow> bool" where
  "d_less (Finite a) (Finite b) = (a < b)"
| "d_less NaN y = False"
| "d_less x NaN = False"
| "d_less x NInf = False"
| "d_less NInf y = True"
| "d_less PInf y = False"
| "d_less x PInf = True"

definition d_of_int :: "int \<Rightarrow> double" where
  "d_of_int k = round64 (of_int k)"

definition binary64 :: "(double, double) arith" where
  "binary64 =
     \<lparr>s_of_int = d_of_int, s_less = d_less, s_sub = d_sub, s_div = d_div,
      v_add = d_add, v_scale = d_mul\<rparr>"

definition is_double :: "double \<Rightarrow> bool" where
  \<comment> \<open>a finite value is a \<^verbatim>\<open>double\<close> when rounding leaves it as it is\<close>
  "is_double x = (case x of Finite a \<Rightarrow> round64 a = Finite a | _ \<Rightarrow> True)"

definition double_val :: "double \<Rightarrow> real" where
  \<comment> \<open>the number a finite \<open>double\<close> stands for\<close>
  "double_val x = (case x of Finite a \<Rightarrow> a | _ \<Rightarrow> 0)"

text \<open>
  The values of the literals \<^verbatim>\<open>0.1\<close>, \<^verbatim>\<open>0.2\<close>, \<^verbatim>\<open>0.3\<close> and \<^verbatim>\<open>0.4\<close>: the \<^verbatim>\<open>double\<close>
  nearest to each of these numbers.
\<close>

definition d0_1 :: double where
  "d0_1 = Finite (3602879701896397 / 36028797018963968)"

definition d0_2 :: double where
  "d0_2 = Finite (3602879701896397 / 18014398509481984)"

definition d0_3 :: double where
  "d0_3 = Finite (5404319552844595 / 18014398509481984)"

definition d0_4 :: double where
  "d0_4 = Finite (3602879701896397 / 9007199254740992)"

text \<open>Three functors on \<^verbatim>\<open>double\<close>: the constants \<open>1\<close> and \<open>0.1\<close>, and the identity.\<close>

definition slope_one :: "double \<Rightarrow> double" where
  "slope_one x = Finite 1"

definition slope_tenth :: "double \<Rightarrow> double" where
  "slope_tenth x = d0_1"

definition slope_id :: "double \<Rightarrow> double" where
  "slope_id x = x"

section \<open>The loop\<close>

lemma for_loop_Some_imp_while:
  assumes "for_loop cond body s = Some r"
  shows "while_option cond body s = Some r"
proof (rule for_loop.raw_induct[where P = "\<lambda>c b s r. while_option c b s = Some r", OF _ assms])
  fix loop :: "('a \<Rightarrow> bool) \<Rightarrow> ('a \<Rightarrow> 'a) \<Rightarrow> 'a \<Rightarrow> 'a option" and c b s r
  assume IH: "\<And>c b s r. loop c b s = Some r \<Longrightarrow> while_option c b s = Some r"
    and step: "(if c s then loop c b (b s) else Some s) = Some r"
  show "while_option c b s = Some r"
    using IH step by (subst while_option_unfold) (auto split: if_splits)
qed

lemma for_loop_exact:
  "(\<And>m. m < n \<Longrightarrow> cond ((body ^^ m) s)) \<Longrightarrow> \<not> cond ((body ^^ n) s) \<Longrightarrow>
   for_loop cond body s = Some ((body ^^ n) s)"
proof (induction n arbitrary: s)
  case 0
  then show ?case by (subst for_loop.simps) simp
next
  case (Suc n)
  have c0: "cond s" using Suc.prems(1)[of 0] by simp
  have "for_loop cond body (body s) = Some ((body ^^ n) (body s))"
  proof (rule Suc.IH)
    fix m assume "m < n"
    then show "cond ((body ^^ m) (body s))"
      using Suc.prems(1)[of "Suc m"] by (simp add: funpow_swap1)
  next
    show "\<not> cond ((body ^^ n) (body s))"
      using Suc.prems(2) by (simp add: funpow_swap1)
  qed
  then show ?case using c0 by (subst for_loop.simps) (simp add: funpow_swap1)
qed

lemma for_loop_stops:
  "\<not> cond ((body ^^ k) s) \<Longrightarrow> \<exists>r. for_loop cond body s = Some r"
proof (induction k arbitrary: s)
  case 0
  then show ?case by (subst for_loop.simps) simp
next
  case (Suc k)
  show ?case
  proof (cases "cond s")
    case True
    from Suc.prems have "\<not> cond ((body ^^ k) (body s))" by (simp add: funpow_swap1)
    from Suc.IH[OF this] True show ?thesis by (subst for_loop.simps) simp
  next
    case False
    then show ?thesis by (subst for_loop.simps) simp
  qed
qed

lemma for_loop_eq_while: "for_loop cond body s = while_option cond body s"
proof (cases "while_option cond body s")
  case None
  then show ?thesis
    using for_loop_Some_imp_while[where cond=cond and body=body and s=s]
    by (cases "for_loop cond body s") auto
next
  case (Some r)
  from while_option_stop2[OF Some] obtain k where "\<not> cond ((body ^^ k) s)" by blast
  from for_loop_stops[where cond=cond and body=body and k=k and s=s, OF this]
  obtain r' where r': "for_loop cond body s = Some r'" ..
  with for_loop_Some_imp_while[OF r'] Some show ?thesis by simp
qed

lemma for_loop_never:
  assumes "\<And>k. cond ((body ^^ k) s)"
  shows "for_loop cond body s = None"
  using assms by (simp add: for_loop_eq_while while_option_def)

lemma for_loop_None_iff: "for_loop cond body s = None \<longleftrightarrow> (\<forall>k. cond ((body ^^ k) s))"
  by (simp add: for_loop_eq_while while_option_def)

section \<open>The two methods are the recurrences of the specification\<close>

lemma swap_loop_state:
  assumes "\<And>t x. body' (x, t) = prod.swap (body (t, x))"
  shows "map_option snd (for_loop (time_left A) body (t, x)) =
         map_option fst (while_option (\<lambda>(x, t). s_less A (s_of_int A 0) t) body' (x, t))"
proof -
  have "map_option prod.swap (while_option (time_left A) body (t, x)) =
        while_option (\<lambda>(x, t). s_less A (s_of_int A 0) t) body' (prod.swap (t, x))"
  proof (rule while_option_commute)
    fix s :: "'a \<times> 'b"
    show "time_left A s = (case prod.swap s of (x, t) \<Rightarrow> s_less A (s_of_int A 0) t)"
      by (cases s) (simp add: time_left_def)
    show "prod.swap (body s) = body' (prod.swap s)"
      by (cases s) (simp add: assms)
  qed
  then have "map_option fst (while_option (\<lambda>(x, t). s_less A (s_of_int A 0) t) body' (x, t)) =
             map_option fst (map_option prod.swap (while_option (time_left A) body (t, x)))"
    by simp
  also have "\<dots> = map_option snd (while_option (time_left A) body (t, x))"
    by (simp add: option.map_comp comp_def)
  finally show ?thesis by (simp add: for_loop_eq_while)
qed

text \<open>
  C1. With the method selector \<open>Euler\<close>, \<open>integrate\<close> computes the forward-Euler recurrence
  of the specification: from \<open>x = x0\<close> and \<open>t = timeSpan\<close>, while \<open>t > 0\<close> it evaluates
  \<open>dx = f x\<close>, updates \<open>x = x + h * dx\<close> and decrements \<open>t\<close> by \<open>h\<close>; the value of
  \<open>xout\<close> after the call is that \<open>x\<close>, and the call returns exactly when the recurrence
  ends. This holds in every arithmetic \<open>A\<close>, rounded or exact.
\<close>

theorem integrate_Euler_refines_spec:
  "integrate A Euler h f timeSpan x0 xout = spec_Euler A h f timeSpan x0"
  unfolding integrate_def ForwardEuler_def spec_Euler_def
  by (simp add: swap_loop_state[where body' =
          "\<lambda>(x, t). let dx = f x in (v_add A x (v_scale A h dx), s_sub A t h)"]
        ForwardEuler_body_def Let_def)

text \<open>
  C2. With the method selector \<open>RungeKutta\<close>, \<open>integrate\<close> computes the RK4 recurrence of
  the specification: the stages \<open>k1 = f x\<close>, \<open>k2 = f (x + (h/2) * k1)\<close>,
  \<open>k3 = f (x + (h/2) * k2)\<close>, \<open>k4 = f (x + h * k3)\<close>, the update
  \<open>x = x + (h/6) * (k1 + 2*k2 + 2*k3 + k4)\<close> and the decrement of \<open>t\<close> by \<open>h\<close>, while
  \<open>t > 0\<close>. The intermediate stages are evaluated at step \<open>h/2\<close>, the last one at \<open>h\<close>.
  This holds in every arithmetic \<open>A\<close>, rounded or exact.
\<close>

theorem integrate_RungeKutta_refines_spec:
  "integrate A RungeKutta h f timeSpan x0 xout = spec_RK4 A h f timeSpan x0"
  unfolding integrate_def RK4_def spec_RK4_def
  by (simp add: swap_loop_state[where body' = "\<lambda>(x, t).
             let k1 = f x;
                 k2 = f (v_add A x (v_scale A (s_div A h (s_of_int A 2)) k1));
                 k3 = f (v_add A x (v_scale A (s_div A h (s_of_int A 2)) k2));
                 k4 = f (v_add A x (v_scale A h k3))
             in (v_add A x (v_scale A (s_div A h (s_of_int A 6))
                   (v_add A (v_add A (v_add A k1 (v_scale A (s_of_int A 2) k2))
                                     (v_scale A (s_of_int A 2) k3)) k4)),
                 s_sub A t h)"]
        RK4_body_def Let_def Euler_def RungeKutta_def)

section \<open>Empty time span and unknown method\<close>

lemma time_left_iff: "time_left A s \<longleftrightarrow> s_less A (s_of_int A 0) (fst s)"
  by (simp add: time_left_def split_beta)

lemma stepping_loop_skip:
  "\<not> s_less A (s_of_int A 0) (fst s) \<Longrightarrow> for_loop (time_left A) body s = Some s"
  by (subst for_loop.simps) (simp add: time_left_iff)

lemma exact_positive: "s_less exact_arith (s_of_int exact_arith 0) t \<longleftrightarrow> 0 < t"
  by (simp add: exact_arith_def)

lemmas eval64 = round64_def pack64_def nearest_even_def ulp64_def ilog2_def pow2_def compute_bitlen

lemma d_zero: "s_of_int binary64 0 = Finite 0"
  by (simp add: binary64_def d_of_int_def round64_def)

lemma binary64_positive: "s_less binary64 (s_of_int binary64 0) t \<longleftrightarrow> d_less (Finite 0) t"
  by (simp add: d_zero) (simp add: binary64_def)

lemma skip_both_methods:
  assumes "\<not> s_less A (s_of_int A 0) timeSpan"
  shows "integrate A Euler h f timeSpan x0 xout = Some x0 \<and>
         integrate A RungeKutta h f timeSpan x0 xout = Some x0"
  using assms
  by (simp add: integrate_def ForwardEuler_def RK4_def stepping_loop_skip Euler_def RungeKutta_def)

text \<open>
  C5. When the loop condition \<^verbatim>\<open>time_span > 0\<close> is false of \<open>timeSpan\<close>, \<open>integrate\<close>
  returns with \<open>xout\<close> equal to the initial state \<open>x0\<close>, under both methods and in every
  arithmetic; in exact arithmetic the condition is false exactly for \<open>timeSpan \<le> 0\<close>. The
  call returns normally; the step size plays no role (so the statement holds in
  particular for every \<open>h > 0\<close>).
\<close>

theorem integrate_nonpositive_span:
  "(\<not> s_less A (s_of_int A 0) timeSpan \<longrightarrow>
      integrate A Euler h f timeSpan x0 xout = Some x0 \<and>
      integrate A RungeKutta h f timeSpan x0 xout = Some x0) \<and>
   (timeSpan' \<le> 0 \<longrightarrow>
      integrate exact_arith Euler h' f' timeSpan' x0' xout' = Some x0' \<and>
      integrate exact_arith RungeKutta h' f' timeSpan' x0' xout' = Some x0')"
  using skip_both_methods[of A timeSpan h f x0 xout]
    skip_both_methods[of exact_arith timeSpan' h' f' x0' xout']
  by (simp add: exact_positive)

theorem integrate_nonpositive_span_witness:
  "(\<not> s_less binary64 (s_of_int binary64 0) (Finite (-1)) \<and>
    integrate binary64 Euler d0_1 slope_one (Finite (-1)) (Finite 5) (Finite 0) = Some (Finite 5) \<and>
    integrate binary64 RungeKutta d0_1 slope_one (Finite (-1)) (Finite 5) (Finite 0) = Some (Finite 5)) \<and>
   ((-1::real) \<le> 0 \<and>
    integrate exact_arith Euler (1/2) (\<lambda>x. x + 1) (-1) (5::real) 0 = Some 5 \<and>
    integrate exact_arith RungeKutta (1/2) (\<lambda>x. x + 1) (-1) (5::real) 0 = Some 5)"
  using integrate_nonpositive_span[of binary64 "Finite (-1)" d0_1 slope_one "Finite 5" "Finite 0"
      "-1" "1/2" "\<lambda>x. x + 1" "5::real" 0]
  by (simp add: binary64_positive)

text \<open>
  C6. For a method selector that is neither \<open>Euler\<close> nor \<open>RungeKutta\<close>, \<open>integrate\<close>
  returns normally and leaves \<open>xout\<close> as it was before the call, whatever the arithmetic,
  the step size, the functor, the time span and the initial state are: nothing is
  integrated, and \<open>xout\<close> is not assigned the initial state.
\<close>

theorem integrate_unknown_mode:
  assumes "mode \<noteq> Euler" and "mode \<noteq> RungeKutta"
  shows "integrate A mode h f timeSpan x0 xout = Some xout"
  using assms by (simp add: integrate_def)

theorem integrate_unknown_mode_witness:
  "(2::int) \<noteq> Euler \<and> 2 \<noteq> RungeKutta \<and>
   integrate exact_arith 2 (1/2) (\<lambda>x. x + 1) 1 (5::real) 7 = Some 7 \<and>
   integrate exact_arith 2 (1/2) (\<lambda>x. x + 1) 1 (5::real) 7 \<noteq> Some 5"
proof -
  have m: "(2::int) \<noteq> Euler" "(2::int) \<noteq> RungeKutta"
    by (simp_all add: Euler_def RungeKutta_def)
  from integrate_unknown_mode[OF m, of exact_arith "1/2" "\<lambda>x. x + 1" 1 "5::real" 7] m
  show ?thesis by simp
qed

section \<open>Number of steps\<close>

lemma fst_ForwardEuler_body: "fst (ForwardEuler_body A h f s) = s_sub A (fst s) h"
  by (simp add: ForwardEuler_body_def split_beta Let_def)

lemma fst_RK4_body: "fst (RK4_body A h f s) = s_sub A (fst s) h"
  by (simp add: RK4_body_def split_beta Let_def)

lemma countdown_0: "countdown A h t 0 = t"
  by (simp add: countdown_def)

lemma countdown_Suc: "countdown A h t (Suc m) = s_sub A (countdown A h t m) h"
  by (simp add: countdown_def)

lemma stepping_fst:
  fixes body :: "'s \<times> 'v \<Rightarrow> 's \<times> 'v"
  assumes "\<And>s. fst (body s) = s_sub A (fst s) h"
  shows "fst ((body ^^ m) s) = countdown A h (fst s) m"
  by (induction m) (simp_all add: assms countdown_0 countdown_Suc)

lemma countdown_value:
  fixes v :: "'s \<Rightarrow> real"
  assumes "\<forall>m<n. v (countdown A h t (Suc m)) = v (countdown A h t m) - v h"
  shows "m \<le> n \<Longrightarrow> v (countdown A h t m) = v t - real m * v h"
proof (induction m)
  case 0
  show ?case by (simp add: countdown_0)
next
  case (Suc m)
  then have mn: "m < n" and IH: "v (countdown A h t m) = v t - real m * v h" by simp_all
  from assms mn have "v (countdown A h t (Suc m)) = v (countdown A h t m) - v h" by blast
  with IH show ?case by (simp add: algebra_simps)
qed

lemma ceiling_steps_before:
  fixes h t :: real
  assumes "0 < h" and "m < nat \<lceil>t / h\<rceil>"
  shows "0 < t - real m * h"
proof -
  from assms(2) have "int m < \<lceil>t / h\<rceil>" by linarith
  then have "real m < t / h" by (simp add: less_ceiling_iff)
  with assms(1) have "real m * h < t" by (simp add: pos_less_divide_eq)
  then show ?thesis by simp
qed

lemma ceiling_steps_after:
  fixes h t :: real
  assumes "0 < h"
  shows "t - real (nat \<lceil>t / h\<rceil>) * h \<le> 0"
proof -
  have "t / h \<le> real_of_int \<lceil>t / h\<rceil>" by (rule le_of_int_ceiling)
  also have "\<dots> \<le> real (nat \<lceil>t / h\<rceil>)" by linarith
  finally have "t \<le> real (nat \<lceil>t / h\<rceil>) * h"
    using assms by (simp add: pos_divide_le_eq)
  then show ?thesis by simp
qed

lemma overshoot:
  fixes h t :: real
  assumes h: "0 < h" and frac: "t / h \<notin> \<int>"
  shows "t < real (nat \<lceil>t / h\<rceil>) * h"
proof -
  have "t / h \<le> real_of_int \<lceil>t / h\<rceil>" by (rule le_of_int_ceiling)
  moreover have "t / h \<noteq> real_of_int \<lceil>t / h\<rceil>"
    using frac by (metis Ints_of_int)
  ultimately have "t / h < real_of_int \<lceil>t / h\<rceil>" by linarith
  also have "\<dots> \<le> real (nat \<lceil>t / h\<rceil>)" by linarith
  finally show ?thesis using h by (simp add: pos_divide_less_eq)
qed

lemma stepping_loop_count:
  fixes body :: "'s \<times> 'v \<Rightarrow> 's \<times> 'v" and v :: "'s \<Rightarrow> real"
  assumes dec: "\<And>s. fst (body s) = s_sub A (fst s) h"
    and h: "0 < v h" and n: "n = nat \<lceil>v t / v h\<rceil>"
    and exact: "\<forall>m<n. v (countdown A h t (Suc m)) = v (countdown A h t m) - v h"
    and cmp: "\<forall>m\<le>n. s_less A (s_of_int A 0) (countdown A h t m) \<longleftrightarrow> 0 < v (countdown A h t m)"
  shows "for_loop (time_left A) body (t, x0) = Some ((body ^^ n) (t, x0)) \<and>
         (\<forall>m<n. time_left A ((body ^^ m) (t, x0))) \<and>
         \<not> time_left A ((body ^^ n) (t, x0)) \<and>
         v (fst ((body ^^ n) (t, x0))) = v t - real n * v h"
proof -
  note val = countdown_value[of n v A h t, OF exact]
  have tl: "time_left A ((body ^^ m) (t, x0)) \<longleftrightarrow> 0 < v t - real m * v h" if "m \<le> n" for m
    using that cmp val[of m] by (simp add: time_left_iff stepping_fst[of body A h, OF dec])
  have before: "time_left A ((body ^^ m) (t, x0))" if "m < n" for m
    using that tl[of m] ceiling_steps_before[OF h, of m "v t"] n by simp
  have after: "\<not> time_left A ((body ^^ n) (t, x0))"
    using tl[of n] ceiling_steps_after[OF h, of "v t"] n by simp
  have "for_loop (time_left A) body (t, x0) = Some ((body ^^ n) (t, x0))"
    using before after by (rule for_loop_exact)
  moreover have "v (fst ((body ^^ n) (t, x0))) = v t - real n * v h"
    using val[of n] by (simp add: stepping_fst[of body A h, OF dec])
  ultimately show ?thesis using before after by blast
qed

lemma step_count_when_exact:
  fixes A :: "('s, 'v) arith" and v :: "'s \<Rightarrow> real"
  assumes "0 < v h" and "0 < v timeSpan" and "n = nat \<lceil>v timeSpan / v h\<rceil>"
    and "\<forall>m<n. v (countdown A h timeSpan (Suc m)) = v (countdown A h timeSpan m) - v h"
    and "\<forall>m\<le>n. s_less A (s_of_int A 0) (countdown A h timeSpan m) \<longleftrightarrow>
                0 < v (countdown A h timeSpan m)"
  shows
    "(for_loop (time_left A) (ForwardEuler_body A h f) (timeSpan, x0) =
        Some ((ForwardEuler_body A h f ^^ n) (timeSpan, x0)) \<and>
      (\<forall>m<n. time_left A ((ForwardEuler_body A h f ^^ m) (timeSpan, x0))) \<and>
      \<not> time_left A ((ForwardEuler_body A h f ^^ n) (timeSpan, x0)) \<and>
      v (fst ((ForwardEuler_body A h f ^^ n) (timeSpan, x0))) = v timeSpan - real n * v h) \<and>
     (for_loop (time_left A) (RK4_body A h f) (timeSpan, x0) =
        Some ((RK4_body A h f ^^ n) (timeSpan, x0)) \<and>
      (\<forall>m<n. time_left A ((RK4_body A h f ^^ m) (timeSpan, x0))) \<and>
      \<not> time_left A ((RK4_body A h f ^^ n) (timeSpan, x0)) \<and>
      v (fst ((RK4_body A h f ^^ n) (timeSpan, x0))) = v timeSpan - real n * v h) \<and>
     integrate A Euler h f timeSpan x0 xout =
       Some (snd ((ForwardEuler_body A h f ^^ n) (timeSpan, x0))) \<and>
     integrate A RungeKutta h f timeSpan x0 xout =
       Some (snd ((RK4_body A h f ^^ n) (timeSpan, x0))) \<and>
     (v timeSpan / v h \<notin> \<int> \<longrightarrow> v timeSpan < real n * v h)"
proof -
  note E = stepping_loop_count[of "ForwardEuler_body A h f" A h v n timeSpan x0,
      OF fst_ForwardEuler_body assms(1) assms(3) assms(4) assms(5)]
  note R = stepping_loop_count[of "RK4_body A h f" A h v n timeSpan x0,
      OF fst_RK4_body assms(1) assms(3) assms(4) assms(5)]
  have iE: "integrate A Euler h f timeSpan x0 xout =
      Some (snd ((ForwardEuler_body A h f ^^ n) (timeSpan, x0)))"
    using E by (simp add: integrate_def ForwardEuler_def)
  have iR: "integrate A RungeKutta h f timeSpan x0 xout =
      Some (snd ((RK4_body A h f ^^ n) (timeSpan, x0)))"
    using R by (simp add: integrate_def RK4_def Euler_def RungeKutta_def)
  have ov: "v timeSpan / v h \<notin> \<int> \<longrightarrow> v timeSpan < real n * v h"
    using overshoot[OF assms(1)] assms(3) by simp
  from E R iE iR ov show ?thesis by blast
qed

lemma exact_sub: "s_sub exact_arith a b = a - b"
  by (simp add: exact_arith_def)

lemma step_count_exact_arith:
  fixes x0 :: "'v::real_vector"
  assumes "0 < h" and "0 < timeSpan" and "n = nat \<lceil>timeSpan / h\<rceil>"
  shows
    "(for_loop (time_left exact_arith) (ForwardEuler_body exact_arith h f) (timeSpan, x0) =
        Some ((ForwardEuler_body exact_arith h f ^^ n) (timeSpan, x0)) \<and>
      (\<forall>m<n. time_left exact_arith ((ForwardEuler_body exact_arith h f ^^ m) (timeSpan, x0))) \<and>
      \<not> time_left exact_arith ((ForwardEuler_body exact_arith h f ^^ n) (timeSpan, x0)) \<and>
      fst ((ForwardEuler_body exact_arith h f ^^ n) (timeSpan, x0)) = timeSpan - real n * h) \<and>
     (for_loop (time_left exact_arith) (RK4_body exact_arith h f) (timeSpan, x0) =
        Some ((RK4_body exact_arith h f ^^ n) (timeSpan, x0)) \<and>
      (\<forall>m<n. time_left exact_arith ((RK4_body exact_arith h f ^^ m) (timeSpan, x0))) \<and>
      \<not> time_left exact_arith ((RK4_body exact_arith h f ^^ n) (timeSpan, x0)) \<and>
      fst ((RK4_body exact_arith h f ^^ n) (timeSpan, x0)) = timeSpan - real n * h) \<and>
     integrate exact_arith Euler h f timeSpan x0 xout =
       Some (snd ((ForwardEuler_body exact_arith h f ^^ n) (timeSpan, x0))) \<and>
     integrate exact_arith RungeKutta h f timeSpan x0 xout =
       Some (snd ((RK4_body exact_arith h f ^^ n) (timeSpan, x0))) \<and>
     (timeSpan / h \<notin> \<int> \<longrightarrow> timeSpan < real n * h)"
proof -
  define E where "E = (exact_arith :: (real, 'v) arith)"
  have 1: "0 < id h" and 2: "0 < id timeSpan" and 3: "n = nat \<lceil>id timeSpan / id h\<rceil>"
    using assms by simp_all
  have 4: "\<forall>m<n. id (countdown E h timeSpan (Suc m)) = id (countdown E h timeSpan m) - id h"
    by (simp add: countdown_Suc exact_sub E_def)
  have 5: "\<forall>m\<le>n. s_less E (s_of_int E 0) (countdown E h timeSpan m) \<longleftrightarrow>
      0 < id (countdown E h timeSpan m)"
    by (simp add: exact_positive E_def)
  from step_count_when_exact[of id h timeSpan n E f x0 xout, OF 1 2 3 4 5]
  show ?thesis by (simp add: E_def)
qed

text \<open>
  C3. Let \<open>v\<close> give the numerical value of a scalar, let \<open>h > 0\<close> and
  \<open>timeSpan > 0\<close>, and let \<open>n = \<lceil>timeSpan / h\<rceil>\<close>. If each of the first \<open>n\<close> executions
  of \<^verbatim>\<open>time_span -= h\<close> is exact (the value of the difference is the difference of the
  values) and \<^verbatim>\<open>time_span > 0\<close> compares the values, then the loop of \<open>ForwardEuler\<close> and
  the loop of \<open>RK4\<close> both make exactly \<open>n\<close> passes: the loop condition holds before each
  of the first \<open>n\<close> passes, fails after the \<open>n\<close>-th, and the loop ends in the state
  reached by \<open>n\<close> passes, which is what \<open>integrate\<close> returns. When \<open>timeSpan\<close> is not a
  multiple of \<open>h\<close>, the \<open>n\<close> full steps cover more than the time span,
  \<open>timeSpan < n * h\<close>: the last step is a full step of size \<open>h\<close>. In exact arithmetic
  all of this holds for every \<open>h > 0\<close> and \<open>timeSpan > 0\<close> (second part of the theorem);
  a rounded decrement can add a pass.
\<close>

theorem step_count_is_ceiling:
  fixes A :: "('s, 'v) arith" and v :: "'s \<Rightarrow> real" and x0' :: "'w::real_vector"
  assumes "0 < v h" and "0 < v timeSpan" and "n = nat \<lceil>v timeSpan / v h\<rceil>"
    and "\<forall>m<n. v (countdown A h timeSpan (Suc m)) = v (countdown A h timeSpan m) - v h"
    and "\<forall>m\<le>n. s_less A (s_of_int A 0) (countdown A h timeSpan m) \<longleftrightarrow>
                0 < v (countdown A h timeSpan m)"
  shows
    "((for_loop (time_left A) (ForwardEuler_body A h f) (timeSpan, x0) =
        Some ((ForwardEuler_body A h f ^^ n) (timeSpan, x0)) \<and>
      (\<forall>m<n. time_left A ((ForwardEuler_body A h f ^^ m) (timeSpan, x0))) \<and>
      \<not> time_left A ((ForwardEuler_body A h f ^^ n) (timeSpan, x0)) \<and>
      v (fst ((ForwardEuler_body A h f ^^ n) (timeSpan, x0))) = v timeSpan - real n * v h) \<and>
     (for_loop (time_left A) (RK4_body A h f) (timeSpan, x0) =
        Some ((RK4_body A h f ^^ n) (timeSpan, x0)) \<and>
      (\<forall>m<n. time_left A ((RK4_body A h f ^^ m) (timeSpan, x0))) \<and>
      \<not> time_left A ((RK4_body A h f ^^ n) (timeSpan, x0)) \<and>
      v (fst ((RK4_body A h f ^^ n) (timeSpan, x0))) = v timeSpan - real n * v h) \<and>
     integrate A Euler h f timeSpan x0 xout =
       Some (snd ((ForwardEuler_body A h f ^^ n) (timeSpan, x0))) \<and>
     integrate A RungeKutta h f timeSpan x0 xout =
       Some (snd ((RK4_body A h f ^^ n) (timeSpan, x0))) \<and>
     (v timeSpan / v h \<notin> \<int> \<longrightarrow> v timeSpan < real n * v h)) \<and>
    (0 < h' \<and> 0 < timeSpan' \<and> n' = nat \<lceil>timeSpan' / h'\<rceil> \<longrightarrow>
     (for_loop (time_left exact_arith) (ForwardEuler_body exact_arith h' f') (timeSpan', x0') =
        Some ((ForwardEuler_body exact_arith h' f' ^^ n') (timeSpan', x0')) \<and>
      (\<forall>m<n'. time_left exact_arith ((ForwardEuler_body exact_arith h' f' ^^ m) (timeSpan', x0'))) \<and>
      \<not> time_left exact_arith ((ForwardEuler_body exact_arith h' f' ^^ n') (timeSpan', x0')) \<and>
      fst ((ForwardEuler_body exact_arith h' f' ^^ n') (timeSpan', x0')) = timeSpan' - real n' * h') \<and>
     (for_loop (time_left exact_arith) (RK4_body exact_arith h' f') (timeSpan', x0') =
        Some ((RK4_body exact_arith h' f' ^^ n') (timeSpan', x0')) \<and>
      (\<forall>m<n'. time_left exact_arith ((RK4_body exact_arith h' f' ^^ m) (timeSpan', x0'))) \<and>
      \<not> time_left exact_arith ((RK4_body exact_arith h' f' ^^ n') (timeSpan', x0')) \<and>
      fst ((RK4_body exact_arith h' f' ^^ n') (timeSpan', x0')) = timeSpan' - real n' * h') \<and>
     integrate exact_arith Euler h' f' timeSpan' x0' xout' =
       Some (snd ((ForwardEuler_body exact_arith h' f' ^^ n') (timeSpan', x0'))) \<and>
     integrate exact_arith RungeKutta h' f' timeSpan' x0' xout' =
       Some (snd ((RK4_body exact_arith h' f' ^^ n') (timeSpan', x0'))) \<and>
     (timeSpan' / h' \<notin> \<int> \<longrightarrow> timeSpan' < real n' * h'))"
proof (rule conjI)
  show "(for_loop (time_left A) (ForwardEuler_body A h f) (timeSpan, x0) =
        Some ((ForwardEuler_body A h f ^^ n) (timeSpan, x0)) \<and>
      (\<forall>m<n. time_left A ((ForwardEuler_body A h f ^^ m) (timeSpan, x0))) \<and>
      \<not> time_left A ((ForwardEuler_body A h f ^^ n) (timeSpan, x0)) \<and>
      v (fst ((ForwardEuler_body A h f ^^ n) (timeSpan, x0))) = v timeSpan - real n * v h) \<and>
     (for_loop (time_left A) (RK4_body A h f) (timeSpan, x0) =
        Some ((RK4_body A h f ^^ n) (timeSpan, x0)) \<and>
      (\<forall>m<n. time_left A ((RK4_body A h f ^^ m) (timeSpan, x0))) \<and>
      \<not> time_left A ((RK4_body A h f ^^ n) (timeSpan, x0)) \<and>
      v (fst ((RK4_body A h f ^^ n) (timeSpan, x0))) = v timeSpan - real n * v h) \<and>
     integrate A Euler h f timeSpan x0 xout =
       Some (snd ((ForwardEuler_body A h f ^^ n) (timeSpan, x0))) \<and>
     integrate A RungeKutta h f timeSpan x0 xout =
       Some (snd ((RK4_body A h f ^^ n) (timeSpan, x0))) \<and>
     (v timeSpan / v h \<notin> \<int> \<longrightarrow> v timeSpan < real n * v h)"
    by (rule step_count_when_exact[OF assms])
next
  show "0 < h' \<and> 0 < timeSpan' \<and> n' = nat \<lceil>timeSpan' / h'\<rceil> \<longrightarrow>
     (for_loop (time_left exact_arith) (ForwardEuler_body exact_arith h' f') (timeSpan', x0') =
        Some ((ForwardEuler_body exact_arith h' f' ^^ n') (timeSpan', x0')) \<and>
      (\<forall>m<n'. time_left exact_arith ((ForwardEuler_body exact_arith h' f' ^^ m) (timeSpan', x0'))) \<and>
      \<not> time_left exact_arith ((ForwardEuler_body exact_arith h' f' ^^ n') (timeSpan', x0')) \<and>
      fst ((ForwardEuler_body exact_arith h' f' ^^ n') (timeSpan', x0')) = timeSpan' - real n' * h') \<and>
     (for_loop (time_left exact_arith) (RK4_body exact_arith h' f') (timeSpan', x0') =
        Some ((RK4_body exact_arith h' f' ^^ n') (timeSpan', x0')) \<and>
      (\<forall>m<n'. time_left exact_arith ((RK4_body exact_arith h' f' ^^ m) (timeSpan', x0'))) \<and>
      \<not> time_left exact_arith ((RK4_body exact_arith h' f' ^^ n') (timeSpan', x0')) \<and>
      fst ((RK4_body exact_arith h' f' ^^ n') (timeSpan', x0')) = timeSpan' - real n' * h') \<and>
     integrate exact_arith Euler h' f' timeSpan' x0' xout' =
       Some (snd ((ForwardEuler_body exact_arith h' f' ^^ n') (timeSpan', x0'))) \<and>
     integrate exact_arith RungeKutta h' f' timeSpan' x0' xout' =
       Some (snd ((RK4_body exact_arith h' f' ^^ n') (timeSpan', x0'))) \<and>
     (timeSpan' / h' \<notin> \<int> \<longrightarrow> timeSpan' < real n' * h')"
  proof (rule impI)
    assume "0 < h' \<and> 0 < timeSpan' \<and> n' = nat \<lceil>timeSpan' / h'\<rceil>"
    then have e: "0 < h'" "0 < timeSpan'" "n' = nat \<lceil>timeSpan' / h'\<rceil>" by simp_all
    show "(for_loop (time_left exact_arith) (ForwardEuler_body exact_arith h' f') (timeSpan', x0') =
        Some ((ForwardEuler_body exact_arith h' f' ^^ n') (timeSpan', x0')) \<and>
      (\<forall>m<n'. time_left exact_arith ((ForwardEuler_body exact_arith h' f' ^^ m) (timeSpan', x0'))) \<and>
      \<not> time_left exact_arith ((ForwardEuler_body exact_arith h' f' ^^ n') (timeSpan', x0')) \<and>
      fst ((ForwardEuler_body exact_arith h' f' ^^ n') (timeSpan', x0')) = timeSpan' - real n' * h') \<and>
     (for_loop (time_left exact_arith) (RK4_body exact_arith h' f') (timeSpan', x0') =
        Some ((RK4_body exact_arith h' f' ^^ n') (timeSpan', x0')) \<and>
      (\<forall>m<n'. time_left exact_arith ((RK4_body exact_arith h' f' ^^ m) (timeSpan', x0'))) \<and>
      \<not> time_left exact_arith ((RK4_body exact_arith h' f' ^^ n') (timeSpan', x0')) \<and>
      fst ((RK4_body exact_arith h' f' ^^ n') (timeSpan', x0')) = timeSpan' - real n' * h') \<and>
     integrate exact_arith Euler h' f' timeSpan' x0' xout' =
       Some (snd ((ForwardEuler_body exact_arith h' f' ^^ n') (timeSpan', x0'))) \<and>
     integrate exact_arith RungeKutta h' f' timeSpan' x0' xout' =
       Some (snd ((RK4_body exact_arith h' f' ^^ n') (timeSpan', x0'))) \<and>
     (timeSpan' / h' \<notin> \<int> \<longrightarrow> timeSpan' < real n' * h')"
      by (rule step_count_exact_arith[OF e])
  qed
qed

section \<open>Evaluation in binary64\<close>

lemmas evalD = binary64_def d_sub_def d_of_int_def d0_1_def d0_2_def d0_3_def d0_4_def
  slope_one_def slope_tenth_def slope_id_def double_val_def

lemma literals_rounded:
  "round64 (1/10) = d0_1" "round64 (2/10) = d0_2" "round64 (3/10) = d0_3" "round64 (4/10) = d0_4"
  by (simp_all add: eval64 evalD)

lemma time_left_binary64: "time_left binary64 (Finite a, x) \<longleftrightarrow> 0 < a"
  by (simp add: time_left_iff binary64_positive)

text \<open>The decrements from \<open>0.75\<close> by \<open>0.5\<close> are exact.\<close>

lemma countdown_075_1: "countdown binary64 (Finite (1/2)) (Finite (3/4)) (Suc 0) = Finite (1/4)"
  by (simp add: countdown_Suc countdown_0 evalD eval64)

lemma countdown_075_2: "countdown binary64 (Finite (1/2)) (Finite (3/4)) (Suc (Suc 0)) = Finite (-1/4)"
  unfolding countdown_Suc[of _ _ _ "Suc 0"] countdown_075_1 by (simp add: evalD eval64)

lemma countdown_075_exact:
  "\<forall>m<Suc (Suc 0).
      double_val (countdown binary64 (Finite (1/2)) (Finite (3/4)) (Suc m)) =
      double_val (countdown binary64 (Finite (1/2)) (Finite (3/4)) m) - double_val (Finite (1/2))"
  by (simp add: less_Suc_eq countdown_075_1 countdown_075_2 countdown_0 double_val_def all_conj_distrib)

lemma countdown_075_compare:
  "\<forall>m\<le>Suc (Suc 0).
      s_less binary64 (s_of_int binary64 0) (countdown binary64 (Finite (1/2)) (Finite (3/4)) m) \<longleftrightarrow>
      0 < double_val (countdown binary64 (Finite (1/2)) (Finite (3/4)) m)"
  by (simp add: le_Suc_eq countdown_075_1 countdown_075_2 countdown_0 double_val_def
      binary64_positive all_conj_distrib)

lemma count_075: "Suc (Suc 0) = nat \<lceil>double_val (Finite (3/4)) / double_val (Finite (1/2))\<rceil>"
  by (simp add: double_val_def)

text \<open>The five passes of both loops from \<open>timeSpan = 0.4\<close> with \<open>h = 0.1\<close> and \<open>f x = 1\<close>.\<close>

lemma Euler_04_pass1: "ForwardEuler_body binary64 d0_1 slope_one (d0_4, Finite 0) =
    (Finite (1351079888211149/4503599627370496), Finite (3602879701896397/36028797018963968))"
  by (simp add: ForwardEuler_body_def evalD eval64)

lemma Euler_04_pass2: "ForwardEuler_body binary64 d0_1 slope_one
    (Finite (1351079888211149/4503599627370496), Finite (3602879701896397/36028797018963968)) =
    (Finite (7205759403792795/36028797018963968), Finite (3602879701896397/18014398509481984))"
  by (simp add: ForwardEuler_body_def evalD eval64)

lemma Euler_04_pass3: "ForwardEuler_body binary64 d0_1 slope_one
    (Finite (7205759403792795/36028797018963968), Finite (3602879701896397/18014398509481984)) =
    (Finite (1801439850948199/18014398509481984), Finite (1351079888211149/4503599627370496))"
  by (simp add: ForwardEuler_body_def evalD eval64)

lemma Euler_04_pass4: "ForwardEuler_body binary64 d0_1 slope_one
    (Finite (1801439850948199/18014398509481984), Finite (1351079888211149/4503599627370496)) =
    (Finite (1/36028797018963968), Finite (3602879701896397/9007199254740992))"
  by (simp add: ForwardEuler_body_def evalD eval64)

lemma Euler_04_pass5: "ForwardEuler_body binary64 d0_1 slope_one
    (Finite (1/36028797018963968), Finite (3602879701896397/9007199254740992)) =
    (Finite (-900719925474099/9007199254740992), Finite (1/2))"
  by (simp add: ForwardEuler_body_def evalD eval64)

lemma RK4_04_pass1: "RK4_body binary64 d0_1 slope_one (d0_4, Finite 0) =
    (Finite (1351079888211149/4503599627370496), Finite (3602879701896397/36028797018963968))"
  by (simp add: RK4_body_def evalD eval64)

lemma RK4_04_pass2: "RK4_body binary64 d0_1 slope_one
    (Finite (1351079888211149/4503599627370496), Finite (3602879701896397/36028797018963968)) =
    (Finite (7205759403792795/36028797018963968), Finite (3602879701896397/18014398509481984))"
  by (simp add: RK4_body_def evalD eval64)

lemma RK4_04_pass3: "RK4_body binary64 d0_1 slope_one
    (Finite (7205759403792795/36028797018963968), Finite (3602879701896397/18014398509481984)) =
    (Finite (1801439850948199/18014398509481984), Finite (1351079888211149/4503599627370496))"
  by (simp add: RK4_body_def evalD eval64)

lemma RK4_04_pass4: "RK4_body binary64 d0_1 slope_one
    (Finite (1801439850948199/18014398509481984), Finite (1351079888211149/4503599627370496)) =
    (Finite (1/36028797018963968), Finite (3602879701896397/9007199254740992))"
  by (simp add: RK4_body_def evalD eval64)

lemma RK4_04_pass5: "RK4_body binary64 d0_1 slope_one
    (Finite (1/36028797018963968), Finite (3602879701896397/9007199254740992)) =
    (Finite (-900719925474099/9007199254740992), Finite (1/2))"
  by (simp add: RK4_body_def evalD eval64)

lemmas Euler_04 = Euler_04_pass1 Euler_04_pass2 Euler_04_pass3 Euler_04_pass4 Euler_04_pass5

lemmas RK4_04 = RK4_04_pass1 RK4_04_pass2 RK4_04_pass3 RK4_04_pass4 RK4_04_pass5

lemma Euler_04_four: "(ForwardEuler_body binary64 d0_1 slope_one ^^ 4) (d0_4, Finite 0) =
    (Finite (1/36028797018963968), Finite (3602879701896397/9007199254740992))"
  by (simp add: eval_nat_numeral Euler_04)

lemma Euler_04_five: "(ForwardEuler_body binary64 d0_1 slope_one ^^ 5) (d0_4, Finite 0) =
    (Finite (-900719925474099/9007199254740992), Finite (1/2))"
  by (simp add: eval_nat_numeral Euler_04)

lemma RK4_04_four: "(RK4_body binary64 d0_1 slope_one ^^ 4) (d0_4, Finite 0) =
    (Finite (1/36028797018963968), Finite (3602879701896397/9007199254740992))"
  by (simp add: eval_nat_numeral RK4_04)

lemma RK4_04_five: "(RK4_body binary64 d0_1 slope_one ^^ 5) (d0_4, Finite 0) =
    (Finite (-900719925474099/9007199254740992), Finite (1/2))"
  by (simp add: eval_nat_numeral RK4_04)

lemma Euler_04_loop:
  "for_loop (time_left binary64) (ForwardEuler_body binary64 d0_1 slope_one) (d0_4, Finite 0) =
     Some (Finite (-900719925474099/9007199254740992), Finite (1/2))"
  by (simp add: d0_4_def time_left_binary64 for_loop.simps Euler_04[unfolded d0_4_def])

lemma RK4_04_loop:
  "for_loop (time_left binary64) (RK4_body binary64 d0_1 slope_one) (d0_4, Finite 0) =
     Some (Finite (-900719925474099/9007199254740992), Finite (1/2))"
  by (simp add: d0_4_def time_left_binary64 for_loop.simps RK4_04[unfolded d0_4_def])

theorem step_count_is_ceiling_witness:
  "0 < double_val (Finite (1/2)) \<and> 0 < double_val (Finite (3/4)) \<and>
   Suc (Suc 0) = nat \<lceil>double_val (Finite (3/4)) / double_val (Finite (1/2))\<rceil> \<and>
   double_val (Finite (3/4)) / double_val (Finite (1/2)) \<notin> \<int> \<and>
   countdown binary64 (Finite (1/2)) (Finite (3/4)) (Suc 0) = Finite (1/4) \<and>
   countdown binary64 (Finite (1/2)) (Finite (3/4)) (Suc (Suc 0)) = Finite (-1/4) \<and>
   for_loop (time_left binary64) (ForwardEuler_body binary64 (Finite (1/2)) slope_one)
     (Finite (3/4), Finite 1) = Some (Finite (-1/4), Finite 2) \<and>
   integrate binary64 Euler (Finite (1/2)) slope_one (Finite (3/4)) (Finite 1) (Finite 0) =
     Some (Finite 2) \<and>
   double_val (Finite (3/4)) < real (Suc (Suc 0)) * double_val (Finite (1/2)) \<and>
   (0::real) < 1/2 \<and> (0::real) < 3/4 \<and> Suc (Suc 0) = nat \<lceil>(3/4) / (1/2::real)\<rceil> \<and>
   integrate exact_arith Euler (1/2) (\<lambda>x. x) (3/4) (1::real) 0 = Some (9/4)"
proof -
  have h: "0 < double_val (Finite (1/2))" and t: "0 < double_val (Finite (3/4))"
    by (simp_all add: double_val_def)
  have nm: "double_val (Finite (3/4)) / double_val (Finite (1/2)) \<notin> \<int>"
    by (simp add: double_val_def frac_eq_0_iff[symmetric] frac_def)
  have p1: "ForwardEuler_body binary64 (Finite (1/2)) slope_one (Finite (3/4), Finite 1) =
      (Finite (1/4), Finite (3/2))"
    by (simp add: ForwardEuler_body_def evalD eval64)
  have p2: "ForwardEuler_body binary64 (Finite (1/2)) slope_one (Finite (1/4), Finite (3/2)) =
      (Finite (-1/4), Finite 2)"
    by (simp add: ForwardEuler_body_def evalD eval64)
  have v2: "(ForwardEuler_body binary64 (Finite (1/2)) slope_one ^^ Suc (Suc 0))
      (Finite (3/4), Finite 1) = (Finite (-1/4), Finite 2)"
    by (simp add: p1 p2)
  note T0 = step_count_is_ceiling[of double_val "Finite (1/2)" "Finite (3/4)" "Suc (Suc 0)" binary64
      slope_one "Finite 1" "Finite 0" "1/2" "3/4" "Suc (Suc 0)" "\<lambda>x. x" "1::real" 0,
      OF h t count_075 countdown_075_exact countdown_075_compare]
  note T = T0[THEN conjunct1, unfolded v2 snd_conv]
  have x2: "(ForwardEuler_body exact_arith (1/2) (\<lambda>x. x) ^^ Suc (Suc 0)) (3/4, 1::real) = (-1/4, 9/4)"
    by (simp add: ForwardEuler_body_def exact_arith_def)
  have e1: "(0::real) < 1/2" and e2: "(0::real) < 3/4"
    and e3: "Suc (Suc 0) = nat \<lceil>(3/4) / (1/2::real)\<rceil>"
    by simp_all
  from e1 e2 e3 have "(0::real) < 1/2 \<and> (0::real) < 3/4 \<and> Suc (Suc 0) = nat \<lceil>(3/4) / (1/2::real)\<rceil>"
    by (intro conjI)
  from T0[THEN conjunct2, THEN mp, OF this]
  have 4: "integrate exact_arith Euler (1/2) (\<lambda>x. x) (3/4) (1::real) 0 = Some (9/4)"
    unfolding x2 snd_conv by (elim conjE)
  from T have 1: "for_loop (time_left binary64) (ForwardEuler_body binary64 (Finite (1/2)) slope_one)
     (Finite (3/4), Finite 1) = Some (Finite (-1/4), Finite 2)"
    by (elim conjE)
  from T have 2: "integrate binary64 Euler (Finite (1/2)) slope_one (Finite (3/4)) (Finite 1) (Finite 0) =
     Some (Finite 2)"
    by (elim conjE)
  from T nm have 3: "double_val (Finite (3/4)) < real (Suc (Suc 0)) * double_val (Finite (1/2))"
    by (elim conjE) (erule (1) impE)
  from h t count_075 nm countdown_075_1 countdown_075_2 1 2 3 e1 e2 e3 4 show ?thesis
    by (intro conjI)
qed

text \<open>
  Without the condition on the decrements the statement fails in binary64: for
  \<open>h = 0.1\<close> and \<open>timeSpan = 0.4\<close>, which is \<open>4 * h\<close> exactly, \<open>\<lceil>timeSpan / h\<rceil> = 4\<close>, yet after four passes the loop condition
  still holds (\<^verbatim>\<open>time_span\<close> is \<open>2\<^sup>-\<^sup>5\<^sup>5\<close>) and both loops end after the fifth pass.
\<close>

theorem step_count_counterexample:
  "0 < double_val d0_1 \<and> 0 < double_val d0_4 \<and>
   nat \<lceil>double_val d0_4 / double_val d0_1\<rceil> = 4 \<and>
   time_left binary64 ((ForwardEuler_body binary64 d0_1 slope_one ^^ 4) (d0_4, Finite 0)) \<and>
   for_loop (time_left binary64) (ForwardEuler_body binary64 d0_1 slope_one) (d0_4, Finite 0) =
     Some ((ForwardEuler_body binary64 d0_1 slope_one ^^ 5) (d0_4, Finite 0)) \<and>
   time_left binary64 ((RK4_body binary64 d0_1 slope_one ^^ 4) (d0_4, Finite 0)) \<and>
   for_loop (time_left binary64) (RK4_body binary64 d0_1 slope_one) (d0_4, Finite 0) =
     Some ((RK4_body binary64 d0_1 slope_one ^^ 5) (d0_4, Finite 0))"
proof -
  have 1: "0 < double_val d0_1" "0 < double_val d0_4" by (simp_all add: evalD)
  have 2: "nat \<lceil>double_val d0_4 / double_val d0_1\<rceil> = 4" by (simp add: evalD)
  have 3: "time_left binary64 ((ForwardEuler_body binary64 d0_1 slope_one ^^ 4) (d0_4, Finite 0))"
    unfolding Euler_04_four by (simp add: time_left_binary64)
  have 4: "time_left binary64 ((RK4_body binary64 d0_1 slope_one ^^ 4) (d0_4, Finite 0))"
    unfolding RK4_04_four by (simp add: time_left_binary64)
  from 1 2 3 4 Euler_04_loop RK4_04_loop show ?thesis
    unfolding Euler_04_five RK4_04_five by (intro conjI)
qed

section \<open>Termination\<close>

text \<open>A positive \<^verbatim>\<open>double\<close> stays positive when a \<^verbatim>\<open>double\<close> \<open>h \<le> 0\<close> is subtracted.\<close>

lemma pow2_pos: "0 < pow2 e"
  by (simp add: pow2_def)

lemma pow2_powi: "pow2 e = 2 powi e"
  by (simp add: pow2_def power_int_def power_one_over inverse_eq_divide)

lemma pow2_mono: "e \<le> e' \<Longrightarrow> pow2 e \<le> pow2 e'"
  by (simp add: pow2_powi power_int_increasing)

lemma ilog2_lower:
  assumes "0 < r"
  shows "pow2 (ilog2 r) \<le> r"
proof (cases "1 \<le> r")
  case True
  then have fl: "0 < \<lfloor>r\<rfloor>" by simp
  from bitlen_bounds[OF fl] have "2 ^ nat (bitlen \<lfloor>r\<rfloor> - 1) \<le> \<lfloor>r\<rfloor>" ..
  then have "real_of_int (2 ^ nat (bitlen \<lfloor>r\<rfloor> - 1)) \<le> real_of_int \<lfloor>r\<rfloor>"
    by (simp only: of_int_le_iff)
  then have "(2::real) ^ nat (bitlen \<lfloor>r\<rfloor> - 1) \<le> r" by (simp add: le_floor_iff)
  moreover have "0 \<le> bitlen \<lfloor>r\<rfloor> - 1"
    using fl bitlen_eq_zero_iff[of "\<lfloor>r\<rfloor>"] bitlen_nonneg[of "\<lfloor>r\<rfloor>"] by linarith
  ultimately show ?thesis using True by (simp add: ilog2_def pow2_def)
next
  case False
  define c where "c = \<lceil>1 / r\<rceil>"
  define b where "b = bitlen (c - 1)"
  from False assms have "1 < 1 / r" by simp
  then have c2: "0 < c - 1" unfolding c_def by linarith
  from bitlen_bounds[OF c2] have "c - 1 < 2 ^ nat b" unfolding b_def ..
  then have "c \<le> 2 ^ nat b" by simp
  then have "real_of_int c \<le> real_of_int (2 ^ nat b)" by (simp only: of_int_le_iff)
  then have "real_of_int c \<le> 2 ^ nat b" by simp
  moreover have "1 / r \<le> real_of_int c" unfolding c_def by (rule le_of_int_ceiling)
  ultimately have "1 / r \<le> 2 ^ nat b" by linarith
  with assms have "1 \<le> r * 2 ^ nat b" by (simp add: pos_divide_le_eq mult.commute)
  then have le: "1 / 2 ^ nat b \<le> r" by (simp add: pos_divide_le_eq)
  have bpos: "0 < b"
    using c2 bitlen_eq_zero_iff[of "c - 1"] bitlen_nonneg[of "c - 1"] unfolding b_def by linarith
  show ?thesis using False le bpos by (simp add: ilog2_def pow2_def b_def c_def)
qed

lemma ulp64_lower: "pow2 (- 1074) \<le> ulp64 r"
  unfolding ulp64_def by (rule pow2_mono) simp

lemma ulp64_upper:
  assumes "pow2 (- 1074) \<le> r"
  shows "ulp64 r \<le> r"
proof (cases "ilog2 r \<le> - 1022")
  case True
  then have "ulp64 r = pow2 (- 1074)" by (simp add: ulp64_def max_def)
  with assms show ?thesis by simp
next
  case False
  have r: "0 < r" using assms pow2_pos[of "- 1074"] by linarith
  from False have "ulp64 r = pow2 (ilog2 r - 52)" by (simp add: ulp64_def max_def)
  also have "\<dots> \<le> pow2 (ilog2 r)" by (rule pow2_mono) simp
  also have "\<dots> \<le> r" by (rule ilog2_lower[OF r])
  finally show ?thesis .
qed

lemma nearest_even_ge_floor: "\<lfloor>q\<rfloor> \<le> nearest_even q"
  by (simp add: nearest_even_def)

lemma round64_pos_cases:
  assumes "0 < r"
  shows "round64 r = PInf \<or>
         round64 r = Finite (of_int (nearest_even (r / ulp64 r)) * ulp64 r)"
  using assms by (simp add: round64_def pack64_def)

lemma round64_positive:
  assumes "pow2 (- 1074) \<le> r"
  shows "round64 r = PInf \<or> (\<exists>m. round64 r = Finite m \<and> pow2 (- 1074) \<le> m)"
proof -
  have r: "0 < r" using assms pow2_pos[of "- 1074"] by linarith
  have u: "0 < ulp64 r" using ulp64_lower[of r] pow2_pos[of "- 1074"] by linarith
  have "1 \<le> r / ulp64 r" using ulp64_upper[OF assms] u by (simp add: pos_le_divide_eq)
  then have "1 \<le> \<lfloor>r / ulp64 r\<rfloor>" by (simp add: le_floor_iff)
  with nearest_even_ge_floor[of "r / ulp64 r"] have "1 \<le> nearest_even (r / ulp64 r)" by linarith
  then have "1 \<le> real_of_int (nearest_even (r / ulp64 r))" by simp
  then have "1 * ulp64 r \<le> real_of_int (nearest_even (r / ulp64 r)) * ulp64 r"
    using u by (intro mult_right_mono) simp_all
  with ulp64_lower[of r]
  have "pow2 (- 1074) \<le> real_of_int (nearest_even (r / ulp64 r)) * ulp64 r" by simp
  with round64_pos_cases[OF r] show ?thesis by blast
qed

lemma double_positive_min:
  assumes "round64 a = Finite a" and "0 < a"
  shows "pow2 (- 1074) \<le> a"
proof -
  have u: "0 < ulp64 a" using ulp64_lower[of a] pow2_pos[of "- 1074"] by linarith
  from round64_pos_cases[OF assms(2)] assms(1)
  have a: "a = real_of_int (nearest_even (a / ulp64 a)) * ulp64 a" by auto
  with assms(2) u have "0 < real_of_int (nearest_even (a / ulp64 a))"
    by (metis zero_less_mult_pos2)
  then have "1 \<le> nearest_even (a / ulp64 a)" by simp
  then have "1 \<le> real_of_int (nearest_even (a / ulp64 a))" by simp
  then have "1 * ulp64 a \<le> real_of_int (nearest_even (a / ulp64 a)) * ulp64 a"
    using u by (intro mult_right_mono) simp_all
  with a ulp64_lower[of a] show ?thesis by simp
qed

lemma binary64_stays_positive:
  assumes h: "d_less h (Finite 0) \<or> h = Finite 0"
    and t: "t = PInf \<or> (\<exists>a. t = Finite a \<and> pow2 (- 1074) \<le> a)"
  shows "d_sub t h = PInf \<or> (\<exists>a. d_sub t h = Finite a \<and> pow2 (- 1074) \<le> a)"
proof (cases h)
  case (Finite b)
  with h have b: "b \<le> 0" by auto
  show ?thesis
  proof (cases t)
    case (Finite a)
    with t have "pow2 (- 1074) \<le> a" by simp
    with b have "pow2 (- 1074) \<le> a + - b" by simp
    from round64_positive[OF this] show ?thesis
      using Finite \<open>h = Finite b\<close> by (simp add: d_sub_def)
  next
    case PInf
    then show ?thesis using Finite by (simp add: d_sub_def)
  next
    case NInf
    with t show ?thesis by simp
  next
    case NaN
    with t show ?thesis by simp
  qed
next
  case PInf
  with h show ?thesis by simp
next
  case NInf
  from t show ?thesis
  proof
    assume "t = PInf"
    then show ?thesis using NInf by (simp add: d_sub_def)
  next
    assume "\<exists>a. t = Finite a \<and> pow2 (- 1074) \<le> a"
    then show ?thesis using NInf by (auto simp: d_sub_def)
  qed
next
  case NaN
  with h show ?thesis by simp
qed

lemma stepping_loop_invariant_diverges:
  fixes body :: "'s \<times> 'v \<Rightarrow> 's \<times> 'v"
  assumes dec: "\<And>s. fst (body s) = s_sub A (fst s) h"
    and init: "I (fst s)"
    and pos: "\<And>t. I t \<Longrightarrow> s_less A (s_of_int A 0) t"
    and keep: "\<And>t. I t \<Longrightarrow> I (s_sub A t h)"
  shows "for_loop (time_left A) body s = None"
proof (rule for_loop_never)
  fix k
  have "I (countdown A h (fst s) k)"
    by (induction k) (simp_all add: countdown_0 countdown_Suc init keep)
  then show "time_left A ((body ^^ k) s)"
    by (simp add: time_left_iff stepping_fst[of body A h, OF dec] pos)
qed

lemma both_methods_diverge:
  assumes init: "I timeSpan"
    and pos: "\<And>t. I t \<Longrightarrow> s_less A (s_of_int A 0) t"
    and keep: "\<And>t. I t \<Longrightarrow> I (s_sub A t h)"
  shows "integrate A Euler h f timeSpan x0 xout = None \<and>
         integrate A RungeKutta h f timeSpan x0 xout = None"
proof -
  have i: "I (fst (timeSpan, x0))" using init by simp
  show ?thesis
    by (simp add: integrate_def ForwardEuler_def RK4_def Euler_def RungeKutta_def
        stepping_loop_invariant_diverges[of "ForwardEuler_body A h f" A h I, OF fst_ForwardEuler_body i pos keep]
        stepping_loop_invariant_diverges[of "RK4_body A h f" A h I, OF fst_RK4_body i pos keep])
qed

lemma exact_diverges:
  assumes "h \<le> 0" and "0 < timeSpan"
  shows "integrate exact_arith Euler h f timeSpan x0 xout = None \<and>
         integrate exact_arith RungeKutta h f timeSpan x0 xout = None"
proof (rule both_methods_diverge[where I = "\<lambda>t. 0 < t"])
  show "0 < timeSpan" by fact
  show "s_less exact_arith (s_of_int exact_arith 0) t" if "0 < t" for t
    using that by (simp add: exact_positive)
  show "0 < s_sub exact_arith t h" if "0 < t" for t
    using that assms(1) by (simp add: exact_arith_def)
qed

lemma binary64_diverges:
  assumes h: "d_less h (Finite 0) \<or> h = Finite 0"
    and d: "is_double timeSpan" and t: "d_less (Finite 0) timeSpan"
  shows "integrate binary64 Euler h f timeSpan x0 xout = None \<and>
         integrate binary64 RungeKutta h f timeSpan x0 xout = None"
proof (rule both_methods_diverge[where I = "\<lambda>t. t = PInf \<or> (\<exists>a. t = Finite a \<and> pow2 (- 1074) \<le> a)"])
  show "timeSpan = PInf \<or> (\<exists>a. timeSpan = Finite a \<and> pow2 (- 1074) \<le> a)"
  proof (cases timeSpan)
    case (Finite a)
    with d t have "round64 a = Finite a" "0 < a" by (simp_all add: is_double_def)
    from double_positive_min[OF this] Finite show ?thesis by simp
  qed (use t in simp_all)
next
  fix t assume "t = PInf \<or> (\<exists>a. t = Finite a \<and> pow2 (- 1074) \<le> a)"
  then show "s_less binary64 (s_of_int binary64 0) t"
    using pow2_pos[of "- 1074"] by (auto simp: binary64_positive)
next
  fix t assume "t = PInf \<or> (\<exists>a. t = Finite a \<and> pow2 (- 1074) \<le> a)"
  from binary64_stays_positive[OF h this]
  show "s_sub binary64 t h = PInf \<or> (\<exists>a. s_sub binary64 t h = Finite a \<and> pow2 (- 1074) \<le> a)"
    by (simp add: binary64_def)
qed

lemma returns_when_exact:
  fixes A :: "('s, 'v) arith" and v :: "'s \<Rightarrow> real"
  assumes "0 < v h" and "n = nat \<lceil>v timeSpan / v h\<rceil>"
    and "\<forall>m<n. v (countdown A h timeSpan (Suc m)) = v (countdown A h timeSpan m) - v h"
    and "\<forall>m\<le>n. s_less A (s_of_int A 0) (countdown A h timeSpan m) \<longleftrightarrow>
                0 < v (countdown A h timeSpan m)"
  shows "\<exists>y. integrate A mode h f timeSpan x0 xout = Some y"
proof -
  note E = stepping_loop_count[of "ForwardEuler_body A h f" A h v n timeSpan x0,
      OF fst_ForwardEuler_body assms]
  note R = stepping_loop_count[of "RK4_body A h f" A h v n timeSpan x0,
      OF fst_RK4_body assms]
  show ?thesis using E R by (simp add: integrate_def ForwardEuler_def RK4_def)
qed

lemma exact_returns:
  fixes x0 :: "'v::real_vector"
  assumes "0 < h"
  shows "\<exists>y. integrate exact_arith mode h f timeSpan x0 xout = Some y"
proof -
  define E where "E = (exact_arith :: (real, 'v) arith)"
  have "\<exists>y. integrate E mode h f timeSpan x0 xout = Some y"
  proof (rule returns_when_exact[where v = id and n = "nat \<lceil>timeSpan / h\<rceil>"])
    show "0 < id h" using assms by simp
    show "nat \<lceil>timeSpan / h\<rceil> = nat \<lceil>id timeSpan / id h\<rceil>" by simp
    show "\<forall>m<nat \<lceil>timeSpan / h\<rceil>.
        id (countdown E h timeSpan (Suc m)) = id (countdown E h timeSpan m) - id h"
      by (simp add: countdown_Suc exact_sub E_def)
    show "\<forall>m\<le>nat \<lceil>timeSpan / h\<rceil>.
        s_less E (s_of_int E 0) (countdown E h timeSpan m) \<longleftrightarrow> 0 < id (countdown E h timeSpan m)"
      by (simp add: exact_positive E_def)
  qed
  then show ?thesis by (simp add: E_def)
qed

text \<open>
  C4. For a step size \<open>h > 0\<close>, \<open>integrate\<close> returns for every time span and
  every method selector in exact arithmetic, and in any arithmetic whenever each
  execution of \<^verbatim>\<open>time_span -= h\<close> on the way is exact and \<^verbatim>\<open>time_span > 0\<close> compares the
  values. For \<open>h \<le> 0\<close> and \<open>timeSpan > 0\<close>, the loop condition stays true and
  \<open>integrate\<close> does not return, under both methods, in exact arithmetic and in binary64.
  (With rounding, \<open>h > 0\<close> alone does not make the loop end: the decrement can leave
  \<^verbatim>\<open>time_span\<close> as it was.)
\<close>

theorem integrate_terminates_iff_positive_step:
  fixes A :: "('s, 'v) arith" and v :: "'s \<Rightarrow> real" and x0' :: "'w::real_vector"
  shows
    "(0 < v h \<and> n = nat \<lceil>v timeSpan / v h\<rceil> \<and>
      (\<forall>m<n. v (countdown A h timeSpan (Suc m)) = v (countdown A h timeSpan m) - v h) \<and>
      (\<forall>m\<le>n. s_less A (s_of_int A 0) (countdown A h timeSpan m) \<longleftrightarrow>
                0 < v (countdown A h timeSpan m)) \<longrightarrow>
      (\<exists>y. integrate A mode h f timeSpan x0 xout = Some y)) \<and>
     (0 < h' \<longrightarrow> (\<exists>y. integrate exact_arith mode h' f' timeSpan' x0' xout' = Some y)) \<and>
     (h' \<le> 0 \<and> 0 < timeSpan' \<longrightarrow>
        integrate exact_arith Euler h' f' timeSpan' x0' xout' = None \<and>
        integrate exact_arith RungeKutta h' f' timeSpan' x0' xout' = None) \<and>
     ((d_less hD (Finite 0) \<or> hD = Finite 0) \<and> is_double tD \<and> d_less (Finite 0) tD \<longrightarrow>
        integrate binary64 Euler hD fD tD xD outD = None \<and>
        integrate binary64 RungeKutta hD fD tD xD outD = None)"
proof (intro conjI impI)
  assume "0 < v h \<and> n = nat \<lceil>v timeSpan / v h\<rceil> \<and>
      (\<forall>m<n. v (countdown A h timeSpan (Suc m)) = v (countdown A h timeSpan m) - v h) \<and>
      (\<forall>m\<le>n. s_less A (s_of_int A 0) (countdown A h timeSpan m) \<longleftrightarrow>
                0 < v (countdown A h timeSpan m))"
  then show "\<exists>y. integrate A mode h f timeSpan x0 xout = Some y"
    by (elim conjE) (rule returns_when_exact)
next
  assume "0 < h'"
  then show "\<exists>y. integrate exact_arith mode h' f' timeSpan' x0' xout' = Some y"
    by (rule exact_returns)
next
  assume a: "h' \<le> 0 \<and> 0 < timeSpan'"
  then have "h' \<le> 0" and "0 < timeSpan'" by simp_all
  from exact_diverges[OF this, of f' x0' xout']
  show "integrate exact_arith Euler h' f' timeSpan' x0' xout' = None"
    and "integrate exact_arith RungeKutta h' f' timeSpan' x0' xout' = None"
    by simp_all
next
  assume a: "(d_less hD (Finite 0) \<or> hD = Finite 0) \<and> is_double tD \<and> d_less (Finite 0) tD"
  then have "d_less hD (Finite 0) \<or> hD = Finite 0" and "is_double tD" and "d_less (Finite 0) tD"
    by simp_all
  from binary64_diverges[OF this, of fD xD outD]
  show "integrate binary64 Euler hD fD tD xD outD = None"
    and "integrate binary64 RungeKutta hD fD tD xD outD = None"
    by simp_all
qed

lemma is_double_d0_4: "is_double d0_4"
  by (simp add: is_double_def d0_4_def eval64)

theorem integrate_terminates_iff_positive_step_witness:
  "(0 < double_val (Finite (1/2)) \<and>
    Suc (Suc 0) = nat \<lceil>double_val (Finite (3/4)) / double_val (Finite (1/2))\<rceil> \<and>
    (\<exists>y. integrate binary64 RungeKutta (Finite (1/2)) slope_one (Finite (3/4)) (Finite 1) (Finite 0) = Some y)) \<and>
   ((0::real) < 1/2 \<and>
    (\<exists>y. integrate exact_arith RungeKutta (1/2) (\<lambda>x. x) (3/4) (1::real) 0 = Some y)) \<and>
   ((-1::real) \<le> 0 \<and> (0::real) < 3/4 \<and>
    integrate exact_arith Euler (-1) (\<lambda>x. x) (3/4) (1::real) 0 = None \<and>
    integrate exact_arith RungeKutta (-1) (\<lambda>x. x) (3/4) (1::real) 0 = None) \<and>
   (d_less (Finite (-1)) (Finite 0) \<and> is_double d0_4 \<and> d_less (Finite 0) d0_4 \<and>
    integrate binary64 Euler (Finite (-1)) slope_one d0_4 (Finite 0) (Finite 0) = None \<and>
    integrate binary64 RungeKutta (Finite (-1)) slope_one d0_4 (Finite 0) (Finite 0) = None)"
proof -
  have h: "0 < double_val (Finite (1/2))" by (simp add: double_val_def)
  have p: "d_less (Finite (-1)) (Finite 0)" "d_less (Finite 0) d0_4" by (simp_all add: d0_4_def)
  note T1 = integrate_terminates_iff_positive_step[of double_val "Finite (1/2)" "Suc (Suc 0)"
      "Finite (3/4)" binary64 RungeKutta slope_one "Finite 1" "Finite 0"
      "1/2" "\<lambda>x. x" "3/4" "1::real" 0
      "Finite (-1)" d0_4 slope_one "Finite 0" "Finite 0"]
  note T2 = integrate_terminates_iff_positive_step[of double_val "Finite (1/2)" "Suc (Suc 0)"
      "Finite (3/4)" binary64 RungeKutta slope_one "Finite 1" "Finite 0"
      "-1" "\<lambda>x. x" "3/4" "1::real" 0
      "Finite (-1)" d0_4 slope_one "Finite 0" "Finite 0"]
  from T1 h count_075 countdown_075_exact countdown_075_compare
  have 1: "\<exists>y. integrate binary64 RungeKutta (Finite (1/2)) slope_one (Finite (3/4)) (Finite 1) (Finite 0) = Some y"
    by blast
  from T1 have 2: "\<exists>y. integrate exact_arith RungeKutta (1/2) (\<lambda>x. x) (3/4) (1::real) 0 = Some y"
    by simp
  from T2 have 3: "integrate exact_arith Euler (-1) (\<lambda>x. x) (3/4) (1::real) 0 = None \<and>
    integrate exact_arith RungeKutta (-1) (\<lambda>x. x) (3/4) (1::real) 0 = None"
    by simp
  from T1 p is_double_d0_4
  have 4: "integrate binary64 Euler (Finite (-1)) slope_one d0_4 (Finite 0) (Finite 0) = None \<and>
    integrate binary64 RungeKutta (Finite (-1)) slope_one d0_4 (Finite 0) (Finite 0) = None"
    by blast
  from h count_075 1 2 3 4 p is_double_d0_4 show ?thesis by simp
qed

text \<open>
  Without the condition on the decrements the first part fails in binary64:
  \<open>h = 1\<close> is positive, but from
  \<open>timeSpan = 2\<^sup>5\<^sup>4\<close> the decrement \<^verbatim>\<open>time_span -= h\<close> rounds back to \<open>2\<^sup>5\<^sup>4\<close>, and
  \<open>integrate\<close> does not return.
\<close>

theorem integrate_terminates_counterexample:
  "d_less (Finite 0) (Finite 1) \<and> is_double (Finite 1) \<and> is_double (Finite 18014398509481984) \<and>
   d_sub (Finite 18014398509481984) (Finite 1) = Finite 18014398509481984 \<and>
   integrate binary64 Euler (Finite 1) slope_one (Finite 18014398509481984) (Finite 0) (Finite 0) = None \<and>
   integrate binary64 RungeKutta (Finite 1) slope_one (Finite 18014398509481984) (Finite 0) (Finite 0) = None"
proof -
  have a: "d_sub (Finite 18014398509481984) (Finite 1) = Finite 18014398509481984"
    by (simp add: d_sub_def eval64)
  have d: "is_double (Finite 1)" "is_double (Finite 18014398509481984)"
    by (simp_all add: is_double_def eval64)
  have "integrate binary64 Euler (Finite 1) slope_one (Finite 18014398509481984) (Finite 0) (Finite 0) = None \<and>
   integrate binary64 RungeKutta (Finite 1) slope_one (Finite 18014398509481984) (Finite 0) (Finite 0) = None"
  proof (rule both_methods_diverge[where I = "\<lambda>t. t = Finite 18014398509481984"])
    show "Finite 18014398509481984 = Finite 18014398509481984" ..
    show "s_less binary64 (s_of_int binary64 0) t" if "t = Finite 18014398509481984" for t
      using that by (simp add: binary64_positive)
    show "s_sub binary64 t (Finite 1) = Finite 18014398509481984" if "t = Finite 18014398509481984" for t
      using that a by (simp add: binary64_def)
  qed
  with a d show ?thesis by simp
qed

section \<open>Constant derivative\<close>

lemma returns_is_about_time_only:
  fixes body1 body2 :: "'s \<times> 'v \<Rightarrow> 's \<times> 'v"
  assumes "\<And>s. fst (body1 s) = s_sub A (fst s) h" and "\<And>s. fst (body2 s) = s_sub A (fst s) h"
  shows "for_loop (time_left A) body1 (t, x) = None \<longleftrightarrow>
         for_loop (time_left A) body2 (t, y) = None"
  by (simp add: for_loop_None_iff time_left_iff
      stepping_fst[of body1 A h, OF assms(1)] stepping_fst[of body2 A h, OF assms(2)])

lemma exact_loop_result:
  fixes body :: "real \<times> 'v::real_vector \<Rightarrow> real \<times> 'v"
  assumes dec: "\<And>s. fst (body s) = fst s - h" and h: "0 < h"
  shows "for_loop (time_left exact_arith) body (t, x0) = Some ((body ^^ nat \<lceil>t / h\<rceil>) (t, x0))"
proof -
  define E where "E = (exact_arith :: (real, 'v) arith)"
  have "for_loop (time_left E) body (t, x0) = Some ((body ^^ nat \<lceil>t / h\<rceil>) (t, x0)) \<and>
         (\<forall>m<nat \<lceil>t / h\<rceil>. time_left E ((body ^^ m) (t, x0))) \<and>
         \<not> time_left E ((body ^^ nat \<lceil>t / h\<rceil>) (t, x0)) \<and>
         id (fst ((body ^^ nat \<lceil>t / h\<rceil>) (t, x0))) = id t - real (nat \<lceil>t / h\<rceil>) * id h"
  proof (rule stepping_loop_count[where v = id and h = h])
    show "fst (body s) = s_sub E (fst s) h" for s by (simp add: E_def dec exact_sub)
    show "0 < id h" using h by simp
    show "nat \<lceil>t / h\<rceil> = nat \<lceil>id t / id h\<rceil>" by simp
    show "\<forall>m<nat \<lceil>t / h\<rceil>. id (countdown E h t (Suc m)) = id (countdown E h t m) - id h"
      by (simp add: countdown_Suc exact_sub E_def)
    show "\<forall>m\<le>nat \<lceil>t / h\<rceil>.
        s_less E (s_of_int E 0) (countdown E h t m) \<longleftrightarrow> 0 < id (countdown E h t m)"
      by (simp add: exact_positive E_def)
  qed
  then show ?thesis by (simp add: E_def)
qed

lemma exact_loop_diverges:
  fixes body :: "real \<times> 'v::real_vector \<Rightarrow> real \<times> 'v"
  assumes dec: "\<And>s. fst (body s) = fst s - h" and h: "h \<le> 0" and t: "0 < t"
  shows "for_loop (time_left exact_arith) body (t, x0) = None"
proof -
  define E where "E = (exact_arith :: (real, 'v) arith)"
  have "for_loop (time_left E) body (t, x0) = None"
  proof (rule stepping_loop_invariant_diverges[where I = "\<lambda>t. 0 < t" and h = h])
    show "fst (body s) = s_sub E (fst s) h" for s by (simp add: E_def dec exact_sub)
    show "0 < fst (t, x0)" using t by simp
    show "s_less E (s_of_int E 0) t" if "0 < t" for t
      using that by (simp add: exact_positive E_def)
    show "0 < s_sub E t h" if "0 < t" for t
      using that h by (simp add: exact_sub E_def)
  qed
  then show ?thesis by (simp add: E_def)
qed

lemma fst_ForwardEuler_body_exact: "fst (ForwardEuler_body exact_arith h f s) = fst s - h"
  by (simp add: fst_ForwardEuler_body exact_sub)

lemma fst_RK4_body_exact: "fst (RK4_body exact_arith h f s) = fst s - h"
  by (simp add: fst_RK4_body exact_sub)

lemma ForwardEuler_body_const:
  "(ForwardEuler_body exact_arith h (\<lambda>x. k) ^^ m) (t, x) = (t - real m * h, x + (real m * h) *\<^sub>R k)"
  by (induction m) (simp_all add: ForwardEuler_body_def exact_arith_def algebra_simps)

text \<open>
  C7. In exact arithmetic, for the constant derivative \<open>f x = k\<close>, a step size
  \<open>h > 0\<close> and the time span \<open>n * h\<close> with \<open>n\<close> a natural number, Euler integration from
  \<open>x0\<close> returns \<open>x0 + (n * h) * k\<close>. (Nothing is said of rounded arithmetic, where the
  result can be off by a whole step \<open>h * k\<close>.)
\<close>

theorem Euler_constant_derivative:
  assumes "0 < h"
  shows "integrate exact_arith Euler h (\<lambda>x. k) (real n * h) x0 xout = Some (x0 + (real n * h) *\<^sub>R k)"
proof -
  have "nat \<lceil>real n * h / h\<rceil> = n" using assms by simp
  then show ?thesis
    using exact_loop_result[of "ForwardEuler_body exact_arith h (\<lambda>x. k)" h "real n * h" x0,
        OF fst_ForwardEuler_body_exact assms]
    by (simp add: integrate_def ForwardEuler_def ForwardEuler_body_const)
qed

theorem Euler_constant_derivative_witness:
  "(0::real) < 1/2 \<and>
   integrate exact_arith Euler (1/2) (\<lambda>x. 2) (real 3 * (1/2)) (1::real) 0 = Some 4"
  using Euler_constant_derivative[of "1/2" "2::real" 3 1 0] by simp

text \<open>
  In binary64 the result is not \<open>x0 + (n * h) * k\<close> up to summation order: with
  \<open>h = 0.1\<close>, \<open>n = 4\<close>, \<open>k = 1\<close> and \<open>x0 = 0\<close>, the time span \<open>n * h\<close> is \<open>0.4\<close> without rounding, and \<open>x0 + (n * h) * k\<close> is
  \<open>0.4\<close>; Euler integration returns \<open>0.5\<close>, one more step and not a difference of
  summation order.
\<close>

theorem Euler_constant_derivative_counterexample:
  "d_less (Finite 0) d0_1 \<and>
   d_mul (Finite 4) d0_1 = d0_4 \<and> 4 * double_val d0_1 = double_val d0_4 \<and>
   d_add (Finite 0) (d_mul d0_4 (slope_one (Finite 0))) = d0_4 \<and>
   integrate binary64 Euler d0_1 slope_one d0_4 (Finite 0) (Finite 0) = Some (Finite (1/2)) \<and>
   9/100 < 1/2 - double_val d0_4"
proof -
  have 1: "d_less (Finite 0) d0_1" by (simp add: evalD)
  have 2: "d_mul (Finite 4) d0_1 = d0_4" by (simp add: evalD eval64)
  have 3: "4 * double_val d0_1 = double_val d0_4" by (simp add: evalD)
  have 4: "d_add (Finite 0) (d_mul d0_4 (slope_one (Finite 0))) = d0_4" by (simp add: evalD eval64)
  have 5: "integrate binary64 Euler d0_1 slope_one d0_4 (Finite 0) (Finite 0) = Some (Finite (1/2))"
    by (simp add: integrate_def ForwardEuler_def Euler_04_loop)
  have 6: "9/100 < 1/2 - double_val d0_4" by (simp add: evalD)
  from 1 2 3 4 5 6 show ?thesis by (intro conjI)
qed

lemma RK4_increment_exact:
  fixes c :: "'v::real_vector"
  shows "v_scale exact_arith (s_div exact_arith h (s_of_int exact_arith 6))
           (v_add exact_arith (v_add exact_arith (v_add exact_arith c
              (v_scale exact_arith (s_of_int exact_arith 2) c))
              (v_scale exact_arith (s_of_int exact_arith 2) c)) c) =
         v_scale exact_arith h c"
proof -
  have "c + 2 *\<^sub>R c + 2 *\<^sub>R c + c = (1 + 2 + 2 + 1) *\<^sub>R c"
    by (simp only: scaleR_add_left scaleR_one)
  then have "c + 2 *\<^sub>R c + 2 *\<^sub>R c + c = 6 *\<^sub>R c"
    by simp
  then show ?thesis by (simp add: exact_arith_def)
qed

lemma same_increment_same_result:
  assumes "v_scale A (s_div A h (s_of_int A 6))
             (v_add A (v_add A (v_add A c (v_scale A (s_of_int A 2) c))
                        (v_scale A (s_of_int A 2) c)) c) =
           v_scale A h c"
  shows "integrate A Euler h (\<lambda>x. c) timeSpan x0 xout =
         integrate A RungeKutta h (\<lambda>x. c) timeSpan x0 xout'"
proof -
  from assms have "RK4_body A h (\<lambda>x. c) = ForwardEuler_body A h (\<lambda>x. c)"
    by (simp add: RK4_body_def ForwardEuler_body_def fun_eq_iff)
  then show ?thesis
    by (simp add: integrate_def ForwardEuler_def RK4_def Euler_def RungeKutta_def)
qed

lemma methods_return_together:
  "integrate A Euler h f timeSpan x0 xout = None \<longleftrightarrow>
   integrate A RungeKutta h g timeSpan y0 xout' = None"
  using returns_is_about_time_only[of "ForwardEuler_body A h f" A h "RK4_body A h g" timeSpan x0 y0,
      OF fst_ForwardEuler_body fst_RK4_body]
  by (simp add: integrate_def ForwardEuler_def RK4_def Euler_def RungeKutta_def)

text \<open>
  C9. For a constant derivative \<open>f x = c\<close>, in every arithmetic: the two
  methods return under the same conditions (both calls return or neither does), and
  their final states are equal whenever one RK4 increment
  \<open>(h/6) * (c + 2*c + 2*c + c)\<close> equals the Euler increment \<open>h * c\<close> in the arithmetic of
  the states. In exact arithmetic it always does, so there the two methods produce the
  same final state for every step size, time span and initial state.
\<close>

theorem Euler_RungeKutta_agree_on_constant:
  fixes A :: "('s, 'v) arith" and c' :: "'w::real_vector"
  shows
    "(v_scale A (s_div A h (s_of_int A 6))
        (v_add A (v_add A (v_add A c (v_scale A (s_of_int A 2) c))
                   (v_scale A (s_of_int A 2) c)) c) =
      v_scale A h c \<longrightarrow>
      integrate A Euler h (\<lambda>x. c) timeSpan x0 xout =
      integrate A RungeKutta h (\<lambda>x. c) timeSpan x0 xout1) \<and>
     (integrate A Euler h (\<lambda>x. c) timeSpan x0 xout = None \<longleftrightarrow>
      integrate A RungeKutta h (\<lambda>x. c) timeSpan x0 xout1 = None) \<and>
     integrate exact_arith Euler h' (\<lambda>x. c') timeSpan' x0' xout' =
     integrate exact_arith RungeKutta h' (\<lambda>x. c') timeSpan' x0' xout1'"
  using same_increment_same_result[of A h c timeSpan x0 xout xout1]
    methods_return_together[of A h "\<lambda>x. c" timeSpan x0 xout "\<lambda>x. c" x0 xout1]
    same_increment_same_result[of exact_arith h' c' timeSpan' x0' xout' xout1',
      OF RK4_increment_exact]
  by simp

theorem Euler_RungeKutta_agree_on_constant_witness:
  "v_scale binary64 (s_div binary64 (Finite (3/4)) (s_of_int binary64 6))
     (v_add binary64 (v_add binary64 (v_add binary64 (Finite 1)
        (v_scale binary64 (s_of_int binary64 2) (Finite 1)))
        (v_scale binary64 (s_of_int binary64 2) (Finite 1))) (Finite 1)) =
   v_scale binary64 (Finite (3/4)) (Finite 1) \<and>
   integrate binary64 Euler (Finite (3/4)) (\<lambda>x. Finite 1) (Finite (3/2)) (Finite 0) (Finite 0) =
   integrate binary64 RungeKutta (Finite (3/4)) (\<lambda>x. Finite 1) (Finite (3/2)) (Finite 0) (Finite 0)"
proof -
  have e: "v_scale binary64 (s_div binary64 (Finite (3/4)) (s_of_int binary64 6))
     (v_add binary64 (v_add binary64 (v_add binary64 (Finite 1)
        (v_scale binary64 (s_of_int binary64 2) (Finite 1)))
        (v_scale binary64 (s_of_int binary64 2) (Finite 1))) (Finite 1)) =
   v_scale binary64 (Finite (3/4)) (Finite 1)"
    by (simp add: evalD eval64)
  from Euler_RungeKutta_agree_on_constant[of binary64 "Finite (3/4)" "Finite 1" "Finite (3/2)"
      "Finite 0" "Finite 0" "Finite 0" 1 "1::real" 1 0 0 0] e
  show ?thesis by blast
qed

text \<open>
  In binary64 the two increments can differ, and the final states with them: for
  \<open>h = 0.1\<close>, \<open>f x = 0.1\<close>, \<open>timeSpan = 0.1\<close> and \<open>x0 = 0\<close> both methods make one pass, and the two final states
  differ in the last place.
\<close>

theorem Euler_RungeKutta_agree_counterexample:
  "integrate binary64 Euler d0_1 slope_tenth d0_1 (Finite 0) (Finite 0) =
     Some (Finite (1441151880758559/144115188075855872)) \<and>
   integrate binary64 RungeKutta d0_1 slope_tenth d0_1 (Finite 0) (Finite 0) =
     Some (Finite (5764607523034235/576460752303423488)) \<and>
   integrate binary64 Euler d0_1 slope_tenth d0_1 (Finite 0) (Finite 0) \<noteq>
   integrate binary64 RungeKutta d0_1 slope_tenth d0_1 (Finite 0) (Finite 0)"
proof -
  have e: "ForwardEuler_body binary64 d0_1 slope_tenth (d0_1, Finite 0) =
      (Finite 0, Finite (1441151880758559/144115188075855872))"
    by (simp add: ForwardEuler_body_def evalD eval64)
  have r: "RK4_body binary64 d0_1 slope_tenth (d0_1, Finite 0) =
      (Finite 0, Finite (5764607523034235/576460752303423488))"
    by (simp add: RK4_body_def evalD eval64)
  have 1: "integrate binary64 Euler d0_1 slope_tenth d0_1 (Finite 0) (Finite 0) =
     Some (Finite (1441151880758559/144115188075855872))"
    by (simp add: integrate_def ForwardEuler_def d0_1_def time_left_binary64 for_loop.simps
        e[unfolded d0_1_def])
  have 2: "integrate binary64 RungeKutta d0_1 slope_tenth d0_1 (Finite 0) (Finite 0) =
     Some (Finite (5764607523034235/576460752303423488))"
    by (simp add: integrate_def RK4_def Euler_def RungeKutta_def d0_1_def time_left_binary64
        for_loop.simps r[unfolded d0_1_def])
  from 1 2 show ?thesis by simp
qed

section \<open>Linear derivative\<close>

lemma ForwardEuler_body_linear:
  assumes lin: "\<And>a b x y. f (a *\<^sub>R x + b *\<^sub>R y) = a *\<^sub>R f x + b *\<^sub>R f y"
  shows "ForwardEuler_body exact_arith h f (t, a *\<^sub>R x + b *\<^sub>R y) =
         (t - h, a *\<^sub>R snd (ForwardEuler_body exact_arith h f (t, x)) +
                 b *\<^sub>R snd (ForwardEuler_body exact_arith h f (t, y)))"
  by (simp add: ForwardEuler_body_def exact_arith_def lin algebra_simps)

lemma linear_stage:
  fixes x y p q :: "'v::real_vector"
  assumes lin: "\<And>a b x y. f (a *\<^sub>R x + b *\<^sub>R y) = a *\<^sub>R f x + b *\<^sub>R f y"
  shows "f (a *\<^sub>R x + b *\<^sub>R y + s *\<^sub>R (a *\<^sub>R p + b *\<^sub>R q)) =
         a *\<^sub>R f (x + s *\<^sub>R p) + b *\<^sub>R f (y + s *\<^sub>R q)"
proof -
  have "a *\<^sub>R x + b *\<^sub>R y + s *\<^sub>R (a *\<^sub>R p + b *\<^sub>R q) =
        a *\<^sub>R (x + s *\<^sub>R p) + b *\<^sub>R (y + s *\<^sub>R q)"
    by (simp add: algebra_simps)
  then show ?thesis by (simp only: lin)
qed

lemma RK4_body_exact:
  "RK4_body exact_arith h f (t, x) =
     (t - h, x + (h / 6) *\<^sub>R (f x
        + 2 *\<^sub>R f (x + (h / 2) *\<^sub>R f x)
        + 2 *\<^sub>R f (x + (h / 2) *\<^sub>R f (x + (h / 2) *\<^sub>R f x))
        + f (x + h *\<^sub>R f (x + (h / 2) *\<^sub>R f (x + (h / 2) *\<^sub>R f x)))))"
  by (simp add: RK4_body_def exact_arith_def Let_def)

lemma RK4_body_linear:
  assumes lin: "\<And>a b x y. f (a *\<^sub>R x + b *\<^sub>R y) = a *\<^sub>R f x + b *\<^sub>R f y"
  shows "RK4_body exact_arith h f (t, a *\<^sub>R x + b *\<^sub>R y) =
         (t - h, a *\<^sub>R snd (RK4_body exact_arith h f (t, x)) +
                 b *\<^sub>R snd (RK4_body exact_arith h f (t, y)))"
proof -
  define k1x where "k1x = f x"
  define k2x where "k2x = f (x + (h / 2) *\<^sub>R k1x)"
  define k3x where "k3x = f (x + (h / 2) *\<^sub>R k2x)"
  define k4x where "k4x = f (x + h *\<^sub>R k3x)"
  define k1y where "k1y = f y"
  define k2y where "k2y = f (y + (h / 2) *\<^sub>R k1y)"
  define k3y where "k3y = f (y + (h / 2) *\<^sub>R k2y)"
  define k4y where "k4y = f (y + h *\<^sub>R k3y)"
  have sx: "snd (RK4_body exact_arith h f (t, x)) =
      x + (h / 6) *\<^sub>R (k1x + 2 *\<^sub>R k2x + 2 *\<^sub>R k3x + k4x)"
    by (simp add: RK4_body_exact k1x_def k2x_def k3x_def k4x_def)
  have sy: "snd (RK4_body exact_arith h f (t, y)) =
      y + (h / 6) *\<^sub>R (k1y + 2 *\<^sub>R k2y + 2 *\<^sub>R k3y + k4y)"
    by (simp add: RK4_body_exact k1y_def k2y_def k3y_def k4y_def)
  have K1: "f (a *\<^sub>R x + b *\<^sub>R y) = a *\<^sub>R k1x + b *\<^sub>R k1y"
    by (simp only: lin k1x_def k1y_def)
  have K2: "f (a *\<^sub>R x + b *\<^sub>R y + (h / 2) *\<^sub>R (a *\<^sub>R k1x + b *\<^sub>R k1y)) = a *\<^sub>R k2x + b *\<^sub>R k2y"
    by (simp only: linear_stage[of f, OF lin] k2x_def k2y_def)
  have K3: "f (a *\<^sub>R x + b *\<^sub>R y + (h / 2) *\<^sub>R (a *\<^sub>R k2x + b *\<^sub>R k2y)) = a *\<^sub>R k3x + b *\<^sub>R k3y"
    by (simp only: linear_stage[of f, OF lin] k3x_def k3y_def)
  have K4: "f (a *\<^sub>R x + b *\<^sub>R y + h *\<^sub>R (a *\<^sub>R k3x + b *\<^sub>R k3y)) = a *\<^sub>R k4x + b *\<^sub>R k4y"
    by (simp only: linear_stage[of f, OF lin] k4x_def k4y_def)
  have "RK4_body exact_arith h f (t, a *\<^sub>R x + b *\<^sub>R y) =
        (t - h, a *\<^sub>R x + b *\<^sub>R y + (h / 6) *\<^sub>R
           ((a *\<^sub>R k1x + b *\<^sub>R k1y) + 2 *\<^sub>R (a *\<^sub>R k2x + b *\<^sub>R k2y)
            + 2 *\<^sub>R (a *\<^sub>R k3x + b *\<^sub>R k3y) + (a *\<^sub>R k4x + b *\<^sub>R k4y)))"
    unfolding RK4_body_exact K1 K2 K3 K4 ..
  also have "\<dots> = (t - h, a *\<^sub>R snd (RK4_body exact_arith h f (t, x)) +
                        b *\<^sub>R snd (RK4_body exact_arith h f (t, y)))"
    unfolding sx sy by (simp add: algebra_simps)
  finally show ?thesis .
qed

lemma stepping_linear:
  fixes body :: "real \<times> 'v::real_vector \<Rightarrow> real \<times> 'v"
  assumes step: "\<And>t x y. body (t, a *\<^sub>R x + b *\<^sub>R y) =
                   (t - h, a *\<^sub>R snd (body (t, x)) + b *\<^sub>R snd (body (t, y)))"
    and dec: "\<And>s. fst (body s) = fst s - h"
  shows "snd ((body ^^ n) (t, a *\<^sub>R x + b *\<^sub>R y)) =
         a *\<^sub>R snd ((body ^^ n) (t, x)) + b *\<^sub>R snd ((body ^^ n) (t, y))"
proof (induction n arbitrary: t x y)
  case 0
  show ?case by simp
next
  case (Suc n)
  have bx: "body (t, x) = (t - h, snd (body (t, x)))" for x
    using dec[of "(t, x)"] by (simp add: prod_eq_iff)
  have "(body ^^ Suc n) (t, a *\<^sub>R x + b *\<^sub>R y) =
        (body ^^ n) (t - h, a *\<^sub>R snd (body (t, x)) + b *\<^sub>R snd (body (t, y)))"
    by (simp add: funpow_swap1 step)
  moreover have "(body ^^ Suc n) (t, x) = (body ^^ n) (t - h, snd (body (t, x)))" for x
    using bx[of x] by (simp add: funpow_swap1)
  ultimately show ?case using Suc.IH[of "t - h" "snd (body (t, x))" "snd (body (t, y))"]
    by simp
qed

lemma stepping_loop_linear:
  fixes body :: "real \<times> 'v::real_vector \<Rightarrow> real \<times> 'v"
  assumes step: "\<And>t x y. body (t, a *\<^sub>R x + b *\<^sub>R y) =
                   (t - h, a *\<^sub>R snd (body (t, x)) + b *\<^sub>R snd (body (t, y)))"
    and dec: "\<And>s. fst (body s) = fst s - h"
  shows "map_option snd (for_loop (time_left exact_arith) body (t, a *\<^sub>R x + b *\<^sub>R y)) =
         Option.bind (map_option snd (for_loop (time_left exact_arith) body (t, x))) (\<lambda>u.
         Option.bind (map_option snd (for_loop (time_left exact_arith) body (t, y))) (\<lambda>v.
           Some (a *\<^sub>R u + b *\<^sub>R v)))"
proof (cases "0 < h")
  case True
  show ?thesis
    by (simp add: exact_loop_result[of body h, OF dec True]
        stepping_linear[of body a b h, OF step dec])
next
  case False
  then have h: "h \<le> 0" by simp
  show ?thesis
  proof (cases "0 < t")
    case True
    then show ?thesis
      by (simp add: exact_loop_diverges[of body h, OF dec h])
  next
    case False
    then show ?thesis by (simp add: stepping_loop_skip exact_positive)
  qed
qed

lemma returns_whatever_the_state:
  "integrate A mode h f timeSpan x0 xout = None \<longleftrightarrow> integrate A mode h f timeSpan y0 xout = None"
  using returns_is_about_time_only[of "ForwardEuler_body A h f" A h "ForwardEuler_body A h f"
      timeSpan x0 y0, OF fst_ForwardEuler_body fst_ForwardEuler_body]
    returns_is_about_time_only[of "RK4_body A h f" A h "RK4_body A h f"
      timeSpan x0 y0, OF fst_RK4_body fst_RK4_body]
  by (simp add: integrate_def ForwardEuler_def RK4_def)

text \<open>
  C10. In exact arithmetic, for a linear derivative function \<open>f\<close>, that is
  \<open>f (a * x + b * y) = a * f x + b * f y\<close> for all scalars and states, the map from the
  initial state to the final state is linear under both methods, for every step size and
  time span: the call from \<open>a * x0 + b * y0\<close> returns exactly when the calls from \<open>x0\<close>
  and from \<open>y0\<close> return, and then with \<open>xout = a * u + b * v\<close> for their results \<open>u\<close> and
  \<open>v\<close>. In every arithmetic, whether \<open>integrate\<close> returns does not depend on the initial
  state. (With rounding the final states need not combine linearly.)
\<close>

theorem integrate_linear:
  fixes f :: "'v::real_vector \<Rightarrow> 'v" and A :: "('s, 'w) arith"
  assumes "\<And>a b x y. f (a *\<^sub>R x + b *\<^sub>R y) = a *\<^sub>R f x + b *\<^sub>R f y"
  shows
    "integrate exact_arith Euler h f timeSpan (a *\<^sub>R x0 + b *\<^sub>R y0) xout =
       Option.bind (integrate exact_arith Euler h f timeSpan x0 xout) (\<lambda>u.
       Option.bind (integrate exact_arith Euler h f timeSpan y0 xout) (\<lambda>v.
         Some (a *\<^sub>R u + b *\<^sub>R v))) \<and>
     integrate exact_arith RungeKutta h f timeSpan (a *\<^sub>R x0 + b *\<^sub>R y0) xout =
       Option.bind (integrate exact_arith RungeKutta h f timeSpan x0 xout) (\<lambda>u.
       Option.bind (integrate exact_arith RungeKutta h f timeSpan y0 xout) (\<lambda>v.
         Some (a *\<^sub>R u + b *\<^sub>R v))) \<and>
     (integrate A mode h' g timeSpan' x0' xout' = None \<longleftrightarrow>
      integrate A mode h' g timeSpan' y0' xout' = None)"
proof (intro conjI)
  show "integrate exact_arith Euler h f timeSpan (a *\<^sub>R x0 + b *\<^sub>R y0) xout =
       Option.bind (integrate exact_arith Euler h f timeSpan x0 xout) (\<lambda>u.
       Option.bind (integrate exact_arith Euler h f timeSpan y0 xout) (\<lambda>v.
         Some (a *\<^sub>R u + b *\<^sub>R v)))"
    unfolding integrate_def ForwardEuler_def
    using stepping_loop_linear[of "ForwardEuler_body exact_arith h f" a b h timeSpan x0 y0,
        OF ForwardEuler_body_linear[of f, OF assms] fst_ForwardEuler_body_exact]
    by simp
  show "integrate exact_arith RungeKutta h f timeSpan (a *\<^sub>R x0 + b *\<^sub>R y0) xout =
       Option.bind (integrate exact_arith RungeKutta h f timeSpan x0 xout) (\<lambda>u.
       Option.bind (integrate exact_arith RungeKutta h f timeSpan y0 xout) (\<lambda>v.
         Some (a *\<^sub>R u + b *\<^sub>R v)))"
    unfolding integrate_def RK4_def
    using stepping_loop_linear[of "RK4_body exact_arith h f" a b h timeSpan x0 y0,
        OF RK4_body_linear[of f, OF assms] fst_RK4_body_exact]
    by (simp add: Euler_def RungeKutta_def)
  show "integrate A mode h' g timeSpan' x0' xout' = None \<longleftrightarrow>
      integrate A mode h' g timeSpan' y0' xout' = None"
    by (rule returns_whatever_the_state)
qed

lemma exact_ops:
  "s_sub exact_arith a b = a - b" "s_div exact_arith a b = a / b"
  "s_of_int exact_arith k = of_int k" "s_less exact_arith a b = (a < b)"
  "v_add exact_arith x y = x + y" "v_scale exact_arith a x = a *\<^sub>R x"
  by (simp_all add: exact_arith_def)

lemma ForwardEuler_body_exact:
  "ForwardEuler_body exact_arith h f (t, x) = (t - h, x + h *\<^sub>R f x)"
  by (simp add: ForwardEuler_body_def exact_ops)

lemma time_left_exact: "time_left exact_arith (t, x) \<longleftrightarrow> 0 < t"
  by (simp add: time_left_iff exact_positive)

theorem integrate_linear_witness:
  "(\<forall>a b x y. (\<lambda>x::real. 3 * x) (a *\<^sub>R x + b *\<^sub>R y) = a *\<^sub>R (\<lambda>x. 3 * x) x + b *\<^sub>R (\<lambda>x. 3 * x) y) \<and>
   integrate exact_arith Euler (1/2) (\<lambda>x. 3 * x) (3/4) (1::real) 0 = Some (25/4) \<and>
   integrate exact_arith Euler (1/2) (\<lambda>x. 3 * x) (3/4) (5::real) 0 = Some (125/4) \<and>
   integrate exact_arith Euler (1/2) (\<lambda>x. 3 * x) (3/4) (2 *\<^sub>R 1 + (-1) *\<^sub>R (5::real)) 0 = Some (-75/4) \<and>
   integrate exact_arith RungeKutta (1/2) (\<lambda>x. 3 * x) (3/4) (1::real) 0 = Some (316969/16384) \<and>
   integrate exact_arith RungeKutta (1/2) (\<lambda>x. 3 * x) (3/4) (5::real) 0 = Some (1584845/16384) \<and>
   integrate exact_arith RungeKutta (1/2) (\<lambda>x. 3 * x) (3/4) (2 *\<^sub>R 1 + (-1) *\<^sub>R (5::real)) 0 =
     Some (-950907/16384)"
proof -
  have lin: "(\<lambda>x::real. 3 * x) (a *\<^sub>R x + b *\<^sub>R y) = a *\<^sub>R (\<lambda>x. 3 * x) x + b *\<^sub>R (\<lambda>x. 3 * x) y"
    for a b x y by (simp add: algebra_simps)
  have e1: "integrate exact_arith Euler (1/2) (\<lambda>x. 3 * x) (3/4) (1::real) 0 = Some (25/4)"
    by (simp add: integrate_def ForwardEuler_def ForwardEuler_body_exact for_loop.simps
        time_left_exact)
  have e2: "integrate exact_arith Euler (1/2) (\<lambda>x. 3 * x) (3/4) (5::real) 0 = Some (125/4)"
    by (simp add: integrate_def ForwardEuler_def ForwardEuler_body_exact for_loop.simps
        time_left_exact)
  have r1: "integrate exact_arith RungeKutta (1/2) (\<lambda>x. 3 * x) (3/4) (1::real) 0 = Some (316969/16384)"
    by (simp add: integrate_def RK4_def RK4_body_exact for_loop.simps time_left_exact
        Euler_def RungeKutta_def)
  have r2: "integrate exact_arith RungeKutta (1/2) (\<lambda>x. 3 * x) (3/4) (5::real) 0 = Some (1584845/16384)"
    by (simp add: integrate_def RK4_def RK4_body_exact for_loop.simps time_left_exact
        Euler_def RungeKutta_def)
  note T = integrate_linear[of "\<lambda>x::real. 3 * x" "1/2" "3/4" 2 1 "-1" 5 0
      exact_arith Euler "1/2" "\<lambda>x::real. 3 * x" "3/4" 1 0 5, OF lin]
  have 3: "integrate exact_arith Euler (1/2) (\<lambda>x. 3 * x) (3/4) (2 *\<^sub>R 1 + (-1) *\<^sub>R (5::real)) 0 = Some (-75/4)"
    using T[THEN conjunct1] unfolding e1 e2 by simp
  have 4: "integrate exact_arith RungeKutta (1/2) (\<lambda>x. 3 * x) (3/4) (2 *\<^sub>R 1 + (-1) *\<^sub>R (5::real)) 0 =
     Some (-950907/16384)"
    using T[THEN conjunct2, THEN conjunct1] unfolding r1 r2 by simp
  from lin e1 e2 r1 r2 3 4 show ?thesis by blast
qed

text \<open>
  In binary64 the final states need not combine linearly: the identity is a linear
  functor, yet
  with \<open>h = timeSpan = 0.5\<close> (one pass), \<open>a = b = 1\<close>, \<open>x0 = 0.1\<close> and \<open>y0 = 0.3\<close> the call
  from \<open>a * x0 + b * y0 = 0.4\<close> returns \<open>0.6000000000000001\<close>, while
  \<open>a * u + b * v\<close> is \<open>0.6\<close> for the results \<open>u\<close> and \<open>v\<close> of the calls from \<open>x0\<close> and
  \<open>y0\<close>.
\<close>

theorem integrate_linear_counterexample:
  "slope_id (v_add binary64 (v_scale binary64 (Finite 1) d0_1) (v_scale binary64 (Finite 1) d0_3)) =
     v_add binary64 (v_scale binary64 (Finite 1) (slope_id d0_1))
       (v_scale binary64 (Finite 1) (slope_id d0_3)) \<and>
   v_add binary64 (v_scale binary64 (Finite 1) d0_1) (v_scale binary64 (Finite 1) d0_3) = d0_4 \<and>
   integrate binary64 Euler (Finite (1/2)) slope_id (Finite (1/2)) d0_1 (Finite 0) =
     Some (Finite (1351079888211149/9007199254740992)) \<and>
   integrate binary64 Euler (Finite (1/2)) slope_id (Finite (1/2)) d0_3 (Finite 0) =
     Some (Finite (2026619832316723/4503599627370496)) \<and>
   integrate binary64 Euler (Finite (1/2)) slope_id (Finite (1/2)) d0_4 (Finite 0) =
     Some (Finite (1351079888211149/2251799813685248)) \<and>
   v_add binary64 (v_scale binary64 (Finite 1) (Finite (1351079888211149/9007199254740992)))
     (v_scale binary64 (Finite 1) (Finite (2026619832316723/4503599627370496))) =
     Finite (5404319552844595/9007199254740992) \<and>
   Finite (1351079888211149/2251799813685248) \<noteq> Finite (5404319552844595/9007199254740992)"
proof -
  have 0: "slope_id (v_add binary64 (v_scale binary64 (Finite 1) d0_1) (v_scale binary64 (Finite 1) d0_3)) =
     v_add binary64 (v_scale binary64 (Finite 1) (slope_id d0_1))
       (v_scale binary64 (Finite 1) (slope_id d0_3))"
    by (simp add: slope_id_def)
  have 1: "v_add binary64 (v_scale binary64 (Finite 1) d0_1) (v_scale binary64 (Finite 1) d0_3) = d0_4"
    by (simp add: evalD eval64)
  have p: "ForwardEuler_body binary64 (Finite (1/2)) slope_id (Finite (1/2), d0_1) =
      (Finite 0, Finite (1351079888211149/9007199254740992))"
    "ForwardEuler_body binary64 (Finite (1/2)) slope_id (Finite (1/2), d0_3) =
      (Finite 0, Finite (2026619832316723/4503599627370496))"
    "ForwardEuler_body binary64 (Finite (1/2)) slope_id (Finite (1/2), d0_4) =
      (Finite 0, Finite (1351079888211149/2251799813685248))"
    by (simp_all add: ForwardEuler_body_def evalD eval64)
  have 2: "integrate binary64 Euler (Finite (1/2)) slope_id (Finite (1/2)) d0_1 (Finite 0) =
     Some (Finite (1351079888211149/9007199254740992))"
    by (simp add: integrate_def ForwardEuler_def time_left_binary64 for_loop.simps p)
  have 3: "integrate binary64 Euler (Finite (1/2)) slope_id (Finite (1/2)) d0_3 (Finite 0) =
     Some (Finite (2026619832316723/4503599627370496))"
    by (simp add: integrate_def ForwardEuler_def time_left_binary64 for_loop.simps p)
  have 4: "integrate binary64 Euler (Finite (1/2)) slope_id (Finite (1/2)) d0_4 (Finite 0) =
     Some (Finite (1351079888211149/2251799813685248))"
    by (simp add: integrate_def ForwardEuler_def time_left_binary64 for_loop.simps p)
  have 5: "v_add binary64 (v_scale binary64 (Finite 1) (Finite (1351079888211149/9007199254740992)))
     (v_scale binary64 (Finite 1) (Finite (2026619832316723/4503599627370496))) =
     Finite (5404319552844595/9007199254740992)"
    by (simp add: evalD eval64)
  have 6: "Finite (1351079888211149/2251799813685248) \<noteq> Finite (5404319552844595/9007199254740992)"
    by simp
  from 0 1 2 3 4 5 6 show ?thesis by (intro conjI)
qed

section \<open>Integrator state across calls\<close>

lemma stateful_loop_projection:
  fixes body_st :: "'s \<times> 'v \<times> 'fs \<Rightarrow> 's \<times> 'v \<times> 'fs"
  assumes "\<And>s. (\<lambda>(t, x, fs). (t, x)) (body_st s) = body ((\<lambda>(t, x, fs). (t, x)) s)"
  shows "map_option (\<lambda>(t, x, fs). (t, x)) (for_loop (time_left_st A) body_st s) =
         for_loop (time_left A) body ((\<lambda>(t, x, fs). (t, x)) s)"
  unfolding for_loop_eq_while
proof (rule while_option_commute)
  fix s :: "'s \<times> 'v \<times> 'fs"
  show "time_left_st A s = time_left A (case s of (t, x, fs) \<Rightarrow> (t, x))"
    by (simp add: time_left_st_def time_left_def split_beta)
  show "(case body_st s of (t, x, fs) \<Rightarrow> (t, x)) = body (case s of (t, x, fs) \<Rightarrow> (t, x))"
    by (rule assms)
qed

lemma ForwardEuler_body_st_projection:
  assumes "\<And>fs x. fst (call fs x) = g x"
  shows "(\<lambda>(t, x, fs). (t, x)) (ForwardEuler_body_st A call h s) =
         ForwardEuler_body A h g ((\<lambda>(t, x, fs). (t, x)) s)"
  by (simp add: ForwardEuler_body_st_def ForwardEuler_body_def split_beta Let_def assms)

lemma RK4_body_st_projection:
  assumes "\<And>fs x. fst (call fs x) = g x"
  shows "(\<lambda>(t, x, fs). (t, x)) (RK4_body_st A call h s) =
         RK4_body A h g ((\<lambda>(t, x, fs). (t, x)) s)"
  by (simp add: RK4_body_st_def RK4_body_def split_beta Let_def assms)

lemma snd_write_back: "snd (write_back this s) = snd ((\<lambda>(t, x, fs). (t, x)) s)"
  by (simp add: write_back_def split_beta)

lemma member_h_write_back: "member_h (fst (write_back this s)) = member_h this"
  by (simp add: write_back_def split_beta)

lemma integrate_st_result:
  fixes call :: "'fs \<Rightarrow> 'v \<Rightarrow> 'v \<times> 'fs" and A :: "('s, 'v) arith"
  assumes det: "\<And>fs x. fst (call fs x) = g x"
  shows "map_option snd (integrate_st A mode call this timeSpan x0 xout) =
         integrate A mode (member_h this) g timeSpan x0 xout"
proof -
  have sw: "map_option snd (map_option (write_back this) r) =
            map_option snd (map_option (\<lambda>(t, x, fs). (t, x)) r)"
    for r :: "('s \<times> 'v \<times> 'fs) option"
    by (cases r) (simp_all add: snd_write_back)
  show ?thesis
    unfolding integrate_st_def integrate_def ForwardEuler_def RK4_def
    by (simp add: sw
        stateful_loop_projection[of "ForwardEuler_body_st A call (member_h this)"
          "ForwardEuler_body A (member_h this) g", OF ForwardEuler_body_st_projection[of call g, OF det]]
        stateful_loop_projection[of "RK4_body_st A call (member_h this)"
          "RK4_body A (member_h this) g", OF RK4_body_st_projection[of call g, OF det]])
qed

lemma integrate_st_keeps_h:
  fixes call :: "'fs \<Rightarrow> 'v \<Rightarrow> 'v \<times> 'fs" and A :: "('s, 'v) arith"
  assumes "integrate_st A mode call this timeSpan x0 xout = Some (this', y)"
  shows "member_h this' = member_h this"
proof -
  have wb: "member_h this' = member_h this"
    if "map_option (write_back this) l = Some (this', y)" for l :: "('s \<times> 'v \<times> 'fs) option"
  proof -
    from that obtain s where "write_back this s = (this', y)" by (cases l) auto
    then have "this' = fst (write_back this s)" by simp
    then show ?thesis by (simp add: member_h_write_back)
  qed
  show ?thesis
  proof (cases "mode = Euler \<or> mode = RungeKutta")
    case True
    then show ?thesis using assms wb unfolding integrate_st_def by (auto split: if_splits)
  next
    case False
    then show ?thesis using assms unfolding integrate_st_def by simp
  qed
qed

text \<open>
  C8. Let the functor be deterministic: the derivative it writes is a function \<open>g\<close> of
  its argument alone, whatever it does to its own state. Then, in every arithmetic, the
  final state returned by \<open>integrate\<close> depends on the integrator only through its step
  size \<open>h\<close> (it is the result of the model without functor state at \<open>h\<close> and \<open>g\<close>), a
  call leaves the member \<open>h\<close> as it was, and a second call with the same time span and
  initial state on the integrator as the first call left it returns the same final state.
  Two integrators with the same step size return the same final state on the same
  arguments.
\<close>

theorem integrate_deterministic:
  fixes call :: "'fs \<Rightarrow> 'v \<Rightarrow> 'v \<times> 'fs" and A :: "('s, 'v) arith"
  assumes "\<And>fs x. fst (call fs x) = g x"
  shows
    "map_option snd (integrate_st A mode call this timeSpan x0 xout) =
       integrate A mode (member_h this) g timeSpan x0 xout \<and>
     (\<forall>this' y. integrate_st A mode call this timeSpan x0 xout = Some (this', y) \<longrightarrow>
        member_h this' = member_h this \<and>
        (\<exists>this''. integrate_st A mode call this' timeSpan x0 xout = Some (this'', y))) \<and>
     (\<forall>other. member_h other = member_h this \<longrightarrow>
        map_option snd (integrate_st A mode call other timeSpan x0 xout) =
        map_option snd (integrate_st A mode call this timeSpan x0 xout))"
proof (intro conjI allI impI)
  show "map_option snd (integrate_st A mode call this timeSpan x0 xout) =
        integrate A mode (member_h this) g timeSpan x0 xout"
    by (rule integrate_st_result[OF assms])
next
  fix this' y
  assume r: "integrate_st A mode call this timeSpan x0 xout = Some (this', y)"
  show h: "member_h this' = member_h this"
    by (rule integrate_st_keeps_h[OF r])
  have "map_option snd (integrate_st A mode call this' timeSpan x0 xout) =
        map_option snd (integrate_st A mode call this timeSpan x0 xout)"
    by (simp add: integrate_st_result[of call g, OF assms] h)
  also have "\<dots> = Some y" by (simp add: r)
  finally show "\<exists>this''. integrate_st A mode call this' timeSpan x0 xout = Some (this'', y)"
    by (cases "integrate_st A mode call this' timeSpan x0 xout") auto
next
  fix other :: "('s, 'fs) NumericalIntegration"
  assume "member_h other = member_h this"
  then show "map_option snd (integrate_st A mode call other timeSpan x0 xout) =
             map_option snd (integrate_st A mode call this timeSpan x0 xout)"
    by (simp add: integrate_st_result[of call g, OF assms])
qed

theorem integrate_deterministic_witness:
  "(\<forall>fs x. fst ((\<lambda>(fs::nat) (x::real). (x, fs + 1)) fs x) = (\<lambda>x. x) x) \<and>
   integrate_st exact_arith Euler (\<lambda>(fs::nat) (x::real). (x, fs + 1))
     \<lparr>member_h = 1/2, member_f = 0\<rparr> (3/4) 1 0 =
     Some (\<lparr>member_h = 1/2, member_f = 2\<rparr>, 9/4) \<and>
   member_h \<lparr>member_h = 1/2 :: real, member_f = 2::nat\<rparr> =
     member_h \<lparr>member_h = 1/2 :: real, member_f = 0::nat\<rparr> \<and>
   (\<exists>this''. integrate_st exact_arith Euler (\<lambda>(fs::nat) (x::real). (x, fs + 1))
     \<lparr>member_h = 1/2, member_f = 2\<rparr> (3/4) 1 0 = Some (this'', 9/4)) \<and>
   integrate exact_arith Euler (1/2) (\<lambda>x. x) (3/4) (1::real) 0 = Some (9/4)"
proof -
  have det: "fst ((\<lambda>(fs::nat) (x::real). (x, fs + 1)) fs x) = (\<lambda>x. x) x" for fs x
    by simp
  have tl: "time_left_st exact_arith (t, x, fs) \<longleftrightarrow> 0 < t" for t and x :: real and fs :: nat
    by (simp add: time_left_st_def exact_ops)
  have r: "integrate_st exact_arith Euler (\<lambda>(fs::nat) (x::real). (x, fs + 1))
      \<lparr>member_h = 1/2, member_f = 0\<rparr> (3/4) 1 0 =
     Some (\<lparr>member_h = 1/2, member_f = 2\<rparr>, 9/4)"
    by (simp add: integrate_st_def ForwardEuler_body_st_def write_back_def tl exact_ops
        for_loop.simps)
  note T = integrate_deterministic[of "\<lambda>(fs::nat) (x::real). (x, fs + 1)" "\<lambda>x. x" exact_arith Euler
      "\<lparr>member_h = 1/2, member_f = 0\<rparr>" "3/4" 1 0, OF det]
  from T have a: "map_option snd (integrate_st exact_arith Euler (\<lambda>(fs::nat) (x::real). (x, fs + 1))
        \<lparr>member_h = 1/2, member_f = 0\<rparr> (3/4) 1 0) =
       integrate exact_arith Euler (member_h \<lparr>member_h = 1/2 :: real, member_f = 0::nat\<rparr>) (\<lambda>x. x) (3/4) 1 0"
    by (rule conjunct1)
  from T r have b: "member_h \<lparr>member_h = 1/2 :: real, member_f = 2::nat\<rparr> =
       member_h \<lparr>member_h = 1/2 :: real, member_f = 0::nat\<rparr> \<and>
     (\<exists>this''. integrate_st exact_arith Euler (\<lambda>(fs::nat) (x::real). (x, fs + 1))
       \<lparr>member_h = 1/2, member_f = 2\<rparr> (3/4) 1 0 = Some (this'', 9/4))"
    by blast
  from a have c: "integrate exact_arith Euler (1/2) (\<lambda>x. x) (3/4) (1::real) 0 = Some (9/4)"
    unfolding r by simp
  from det r b c show ?thesis by blast
qed

end
